theory Spec2Isabelle
  imports Complex_Main "HOL-Library.Log_Nat"
begin

section \<open>Python numbers\<close>

text \<open>
  The dashboard (\<^verbatim>\<open>main.py\<close>) computes with Python integers and Python floats.
  Integers are unbounded (\<^typ>\<open>int\<close>). A finite float is an IEEE 754 binary64 number and
  is represented by the rational it denotes; the sign of zero is not represented (it only
  shows in the printed text of a number). Every arithmetic operation on floats is the
  exact operation followed by rounding to the nearest binary64 number, ties to even.
  The exceptions are those of Python and \<^verbatim>\<open>curses.error\<close>.
\<close>

datatype py_error =
  ZeroDivisionError | OverflowError | ValueError | IndexError | AttributeError | CursesError

datatype pyfloat = Fin rat | PInf | NInf | NaN

datatype pynum = IntV int | FloatV pyfloat

definition round_half_even :: "rat \<Rightarrow> int" where
  "round_half_even x =
     (let f = \<lfloor>x\<rfloor>; d = x - of_int f in
      if d < 1 / 2 then f
      else if 1 / 2 < d then f + 1
      else if even f then f else f + 1)"

text \<open>The exponent \<open>e\<close> of the binade of a positive rational: \<open>2\<^sup>e \<le> x < 2\<^sup>e\<^sup>+\<^sup>1\<close>.\<close>

definition floor_log2 :: "rat \<Rightarrow> int" where
  "floor_log2 x =
     (if 1 \<le> x then bitlen \<lfloor>x\<rfloor> - 1 else - bitlen (\<lceil>1 / x\<rceil> - 1))"

text \<open>
  Rounding a positive rational to binary64: 53 significant bits, the exponent of a normal
  number is at least \<open>-1022\<close>, below that the spacing of the subnormal numbers is kept.
  The result is not bounded above here; the operations below test for overflow.
\<close>

definition fl_pos :: "rat \<Rightarrow> rat" where
  "fl_pos x =
     (let e = max (floor_log2 x) (- 1022); q = 2 powi (e - 52)
      in of_int (round_half_even (x / q)) * q)"

definition fl :: "rat \<Rightarrow> rat" where
  "fl x = (if x = 0 then 0 else if 0 < x then fl_pos x else - fl_pos (- x))"

definition overflow_to_inf :: "rat \<Rightarrow> pyfloat" where
  "overflow_to_inf r =
     (if 2 ^ 1024 \<le> r then PInf else if r \<le> - (2 ^ 1024) then NInf else Fin r)"

text \<open>\<^verbatim>\<open>a / b\<close> on two integers: correctly rounded, raising on a zero divisor and on overflow.\<close>

definition py_int_truediv :: "int \<Rightarrow> int \<Rightarrow> py_error + pyfloat" where
  "py_int_truediv a b =
     (if b = 0 then Inl ZeroDivisionError
      else let r = fl (of_int a / of_int b)
           in if 2 ^ 1024 \<le> \<bar>r\<bar> then Inl OverflowError else Inr (Fin r))"

text \<open>The conversion of an integer operand to float, as mixed arithmetic does first.\<close>

definition py_float_of_int :: "int \<Rightarrow> py_error + rat" where
  "py_float_of_int n =
     (let r = fl (of_int n) in if 2 ^ 1024 \<le> \<bar>r\<bar> then Inl OverflowError else Inr r)"

definition py_float_truediv :: "pyfloat \<Rightarrow> rat \<Rightarrow> py_error + pyfloat" where
  "py_float_truediv x y =
     (if y = 0 then Inl ZeroDivisionError
      else case x of
        Fin a \<Rightarrow> Inr (overflow_to_inf (fl (a / y)))
      | PInf \<Rightarrow> Inr (if 0 < y then PInf else NInf)
      | NInf \<Rightarrow> Inr (if 0 < y then NInf else PInf)
      | NaN \<Rightarrow> Inr NaN)"

text \<open>\<^verbatim>\<open>v / n\<close> for a number \<open>v\<close> and an integer \<open>n\<close>.\<close>

definition py_truediv :: "pynum \<Rightarrow> int \<Rightarrow> py_error + pyfloat" where
  "py_truediv v n =
     (case v of
        IntV a \<Rightarrow> py_int_truediv a n
      | FloatV x \<Rightarrow>
          (case py_float_of_int n of Inl e \<Rightarrow> Inl e | Inr y \<Rightarrow> py_float_truediv x y))"

definition py_float_mul :: "pyfloat \<Rightarrow> rat \<Rightarrow> pyfloat" where
  "py_float_mul x y =
     (case x of
        Fin a \<Rightarrow> overflow_to_inf (fl (a * y))
      | PInf \<Rightarrow> (if 0 < y then PInf else if y < 0 then NInf else NaN)
      | NInf \<Rightarrow> (if 0 < y then NInf else if y < 0 then PInf else NaN)
      | NaN \<Rightarrow> NaN)"

text \<open>\<^verbatim>\<open>x * n\<close> for a float \<open>x\<close> and an integer \<open>n\<close>.\<close>

definition py_mul_int :: "pyfloat \<Rightarrow> int \<Rightarrow> py_error + pyfloat" where
  "py_mul_int x n =
     (case py_float_of_int n of Inl e \<Rightarrow> Inl e | Inr y \<Rightarrow> Inr (py_float_mul x y))"

text \<open>\<^verbatim>\<open>int(x)\<close> truncates towards zero and raises on infinities and NaN.\<close>

definition py_int :: "pyfloat \<Rightarrow> py_error + int" where
  "py_int x =
     (case x of
        Fin a \<Rightarrow> Inr (if 0 \<le> a then \<lfloor>a\<rfloor> else \<lceil>a\<rceil>)
      | PInf \<Rightarrow> Inl OverflowError
      | NInf \<Rightarrow> Inl OverflowError
      | NaN \<Rightarrow> Inl ValueError)"

text \<open>\<^verbatim>\<open>v <= n\<close> and \<^verbatim>\<open>v > n\<close> against an integer; every comparison with NaN is false.\<close>

definition py_le :: "pynum \<Rightarrow> int \<Rightarrow> bool" where
  "py_le v n =
     (case v of
        IntV a \<Rightarrow> a \<le> n
      | FloatV (Fin a) \<Rightarrow> a \<le> of_int n
      | FloatV PInf \<Rightarrow> False
      | FloatV NInf \<Rightarrow> True
      | FloatV NaN \<Rightarrow> False)"

definition py_gt :: "pynum \<Rightarrow> int \<Rightarrow> bool" where
  "py_gt v n =
     (case v of
        IntV a \<Rightarrow> n < a
      | FloatV (Fin a) \<Rightarrow> of_int n < a
      | FloatV PInf \<Rightarrow> True
      | FloatV NInf \<Rightarrow> False
      | FloatV NaN \<Rightarrow> False)"

text \<open>
  \<^verbatim>\<open>round(v, 2)\<close>: an integer is returned as it is; a finite float is rounded to two
  decimals (ties to even, on the exact value) and the decimal is converted back to float.
\<close>

definition py_round2 :: "pynum \<Rightarrow> py_error + pynum" where
  "py_round2 v =
     (case v of
        IntV a \<Rightarrow> Inr (IntV a)
      | FloatV (Fin a) \<Rightarrow>
          (let r = fl (of_int (round_half_even (a * 100)) / 100)
           in if 2 ^ 1024 \<le> \<bar>r\<bar> then Inl OverflowError else Inr (FloatV (Fin r)))
      | FloatV x \<Rightarrow> Inr (FloatV x))"

definition py_index :: "'a list \<Rightarrow> nat \<Rightarrow> py_error + 'a" where
  "py_index xs i = (if i < length xs then Inr (xs ! i) else Inl IndexError)"

definition py_range :: "int \<Rightarrow> int list" where
  "py_range n = [0..n - 1]"

definition dict_get :: "'a option \<Rightarrow> 'a \<Rightarrow> 'a" where
  "dict_get entry dflt = (case entry of None \<Rightarrow> dflt | Some v \<Rightarrow> v)"

section \<open>The drawing surface\<close>

text \<open>
  A curses window is its size, its position and the calls it has received, in order. The
  text of a call is kept as the parts of the format string: literal pieces and the numbers
  formatted into it. A colour is the number of its colour pair.
\<close>

datatype part = Lit string | Val pynum

type_synonym fstring = "part list"

datatype call = Clear | AddStr int int fstring nat | Box | Refresh

record window =
  win_height :: int
  win_width :: int
  win_begin_y :: int
  win_begin_x :: int
  win_calls :: "call list"

definition addstr :: "window \<Rightarrow> int \<Rightarrow> int \<Rightarrow> fstring \<Rightarrow> nat \<Rightarrow> window" where
  "addstr win y x s attr = win\<lparr>win_calls := win_calls win @ [AddStr y x s attr]\<rparr>"

text \<open>
  The library refuses a write that does not end inside the window. \<^verbatim>\<open>addstr\<close> first
  moves the cursor to the row and the column, which have to lie in the window, and then
  writes the characters one by one, going on in the next row at the end of a row; after
  the last cell of the window the cursor cannot advance, and the call raises
  \<^verbatim>\<open>curses.error\<close>. A text of \<open>n\<close> plain characters is therefore written without an
  error exactly when more than \<open>n\<close> cells lie from the starting cell to the end of the
  window.

  The main window is the terminal and has any size; the text that the program writes to
  it is written by \<open>addstr_checked\<close>. The panel is a window that the program creates with
  15 rows and 75 columns; the writes to it are recorded as calls by \<open>addstr\<close> and are not
  checked against its size.
\<close>

definition fits :: "window \<Rightarrow> int \<Rightarrow> int \<Rightarrow> string \<Rightarrow> bool" where
  "fits win y x s =
     (0 \<le> y \<and> y < win_height win \<and> 0 \<le> x \<and> x < win_width win \<and>
      int (length s) < (win_height win - y) * win_width win - x)"

definition addstr_checked ::
  "window \<Rightarrow> int \<Rightarrow> int \<Rightarrow> string \<Rightarrow> nat \<Rightarrow> py_error + window" where
  "addstr_checked win y x s attr =
     (if fits win y x s then Inr (addstr win y x [Lit s] attr) else Inl CursesError)"

definition clear :: "window \<Rightarrow> window" where
  "clear win = win\<lparr>win_calls := win_calls win @ [Clear]\<rparr>"

definition refresh :: "window \<Rightarrow> window" where
  "refresh win = win\<lparr>win_calls := win_calls win @ [Refresh]\<rparr>"

definition box :: "window \<Rightarrow> window" where
  "box win = win\<lparr>win_calls := win_calls win @ [Box]\<rparr>"

definition newwin :: "int \<Rightarrow> int \<Rightarrow> int \<Rightarrow> int \<Rightarrow> window" where
  "newwin nlines ncols begin_y begin_x =
     \<lparr>win_height = nlines, win_width = ncols, win_begin_y = begin_y,
      win_begin_x = begin_x, win_calls = []\<rparr>"

section \<open>The gauges\<close>

text \<open>\<^verbatim>\<open>draw_rpm_bar\<close>, line 18: \<^verbatim>\<open>bar_fill = int((rpm / max_rpm) * bar_length)\<close>.\<close>

definition rpm_bar_fill :: "int \<Rightarrow> int \<Rightarrow> py_error + int" where
  "rpm_bar_fill rpm max_rpm =
     (case py_int_truediv rpm max_rpm of
        Inl e \<Rightarrow> Inl e
      | Inr r \<Rightarrow>
          (case py_mul_int r 30 of
             Inl e \<Rightarrow> Inl e
           | Inr p \<Rightarrow> py_int p))"

text \<open>Lines 20 to 25: the colour pair of the bar.\<close>

definition rpm_color :: "int \<Rightarrow> nat" where
  "rpm_color rpm = (if 12000 \<le> rpm then 4 else if 10000 \<le> rpm then 3 else 2)"

text \<open>Lines 29 to 32: the body of the loop over the cells of the bar.\<close>

definition rpm_cell :: "int \<Rightarrow> int \<Rightarrow> int \<Rightarrow> nat \<Rightarrow> window \<Rightarrow> int \<Rightarrow> window" where
  "rpm_cell y x bar_fill color win i =
     (if i < bar_fill then addstr win y (x + 1 + i) [Lit ''|''] color
      else addstr win y (x + 1 + i) [Lit '' ''] color)"

definition draw_rpm_bar :: "window \<Rightarrow> int \<Rightarrow> int \<Rightarrow> int \<Rightarrow> int \<Rightarrow> py_error + window" where
  "draw_rpm_bar win y x rpm max_rpm =
     (let bar_length = 30 in
      case rpm_bar_fill rpm max_rpm of
        Inl e \<Rightarrow> Inl e
      | Inr bar_fill \<Rightarrow>
          (let color = rpm_color rpm;
               w1 = addstr win y x [Lit ''[''] 1;
               w2 = foldl (rpm_cell y x bar_fill color) w1 (py_range bar_length);
               w3 = addstr w2 y (x + 1 + bar_length) [Lit '']''] 1
           in Inr (addstr w3 y (x + 1 + bar_length + 2) [Val (IntV rpm), Lit '' RPM''] 1)))"

text \<open>
  \<^verbatim>\<open>draw_brake_bar\<close> and \<^verbatim>\<open>draw_accel_bar\<close>: the fill is computed first, then the
  gauge is skipped when it does not fit the window.
\<close>

definition vertical_bar_fill :: "pynum \<Rightarrow> py_error + int" where
  "vertical_bar_fill v =
     (case py_truediv v 100 of
        Inl e \<Rightarrow> Inl e
      | Inr r \<Rightarrow>
          (case py_mul_int r 10 of
             Inl e \<Rightarrow> Inl e
           | Inr p \<Rightarrow> py_int p))"

definition brake_cell :: "int \<Rightarrow> int \<Rightarrow> int \<Rightarrow> window \<Rightarrow> int \<Rightarrow> window" where
  "brake_cell y x bar_fill win i =
     (if i < bar_fill then addstr win (y + 10 - i - 1) (x + 7) [Lit ''|''] 3
      else addstr win (y + 10 - i - 1) (x + 7) [Lit '' ''] 3)"

definition draw_brake_bar :: "window \<Rightarrow> int \<Rightarrow> int \<Rightarrow> pynum \<Rightarrow> py_error + window" where
  "draw_brake_bar win y x brake_value =
     (let bar_height = 10; bar_width = 2 in
      case vertical_bar_fill brake_value of
        Inl e \<Rightarrow> Inl e
      | Inr bar_fill \<Rightarrow>
          if win_height win \<le> y + bar_height \<or> win_width win \<le> x + bar_width then Inr win
          else Inr (foldl (brake_cell y x bar_fill)
                      (addstr win y x [Lit ''Brake:''] 1) (py_range bar_height)))"

definition accel_cell :: "int \<Rightarrow> int \<Rightarrow> int \<Rightarrow> window \<Rightarrow> int \<Rightarrow> window" where
  "accel_cell y x bar_fill win i =
     (if i < bar_fill then addstr win (y + 10 - i - 1) (x + 10) [Lit ''|''] 2
      else addstr win (y + 10 - i - 1) (x + 10) [Lit '' ''] 2)"

definition draw_accel_bar :: "window \<Rightarrow> int \<Rightarrow> int \<Rightarrow> pynum \<Rightarrow> py_error + window" where
  "draw_accel_bar win y x throttle_value =
     (let bar_height = 10; bar_width = 2 in
      case vertical_bar_fill throttle_value of
        Inl e \<Rightarrow> Inl e
      | Inr bar_fill \<Rightarrow>
          if win_height win \<le> y + bar_height \<or> win_width win \<le> x + bar_width then Inr win
          else Inr (foldl (accel_cell y x bar_fill)
                      (addstr win y x [Lit ''Throttle:''] 1) (py_range bar_height)))"

section \<open>The telemetry box\<close>

text \<open>
  The dictionary \<^verbatim>\<open>data\<close> has a fixed set of keys, each present or absent. The rotation
  rate and its maximum are integers (the arguments \<^verbatim>\<open>rpm: int\<close> and \<^verbatim>\<open>max_rpm: int\<close> of
  \<^verbatim>\<open>draw_rpm_bar\<close>); the other values are numbers or lists of numbers.
\<close>

record telemetry_data =
  engine_speed :: "pynum option"
  engine_rpm :: "int option"
  gear :: "pynum option"
  max_rpm :: "int option"
  tire_temperatures :: "pynum list option"
  throttle :: "pynum option"
  brake :: "pynum option"
  fuel :: "pynum option"
  g_force :: "pynum option"
  tire_wear :: "pynum list option"

definition empty_data :: telemetry_data where
  "empty_data =
     \<lparr>engine_speed = None, engine_rpm = None, gear = None, max_rpm = None,
      tire_temperatures = None, throttle = None, brake = None, fuel = None,
      g_force = None, tire_wear = None\<rparr>"

definition tire_labels :: "string list" where
  "tire_labels = [''RL'', ''RR'', ''FL'', ''FR'']"

text \<open>Line 137 and line 141: the colour pair of a temperature and of a wear value.\<close>

definition temp_color :: "pynum \<Rightarrow> nat" where
  "temp_color temp = (if py_le temp 150 then 2 else if py_le temp 250 then 5 else 3)"

definition wear_color :: "pynum \<Rightarrow> nat" where
  "wear_color damage = (if py_gt damage 75 then 3 else if py_gt damage 50 then 5 else 2)"

text \<open>
  The two loops over \<^verbatim>\<open>enumerate(...)\<close>, lines 136 to 142; \<^verbatim>\<open>tire_labels[i]\<close> raises
  from the fifth element on. The degree sign is the character 176.
\<close>

fun draw_tire_temperatures :: "window \<Rightarrow> nat \<Rightarrow> pynum list \<Rightarrow> py_error + window" where
  "draw_tire_temperatures win i [] = Inr win"
| "draw_tire_temperatures win i (temp # rest) =
     (let color = temp_color temp in
      case py_index tire_labels i of
        Inl e \<Rightarrow> Inl e
      | Inr label \<Rightarrow>
          draw_tire_temperatures
            (addstr win (9 + int i) 2
               [Lit label, Lit '' Temp: '', Val temp, Lit [CHR 0xB0, CHR ''C'']] color)
            (Suc i) rest)"

fun draw_tire_wear :: "window \<Rightarrow> nat \<Rightarrow> pynum list \<Rightarrow> py_error + window" where
  "draw_tire_wear win i [] = Inr win"
| "draw_tire_wear win i (damage # rest) =
     (let color = wear_color damage in
      case py_index tire_labels i of
        Inl e \<Rightarrow> Inl e
      | Inr label \<Rightarrow>
          draw_tire_wear
            (addstr win (9 + int i) 30
               [Lit label, Lit '' Wear: '', Val damage, Lit ''%''] color)
            (Suc i) rest)"

text \<open>Line 107: the notice, a text of 48 characters.\<close>

definition too_small_notice :: string where
  "too_small_notice = ''Terminal too small. Please resize and try again.''"

text \<open>
  \<^verbatim>\<open>draw_telemetry_box\<close> returns the main window, the panel window when one was created,
  and the boolean of the source. On a terminal that is too small the notice is written to
  the main window at row 0 and column 0; on a terminal of 48 cells or fewer it does not
  fit, the write raises and the function does not return.
\<close>

definition draw_panel :: "window \<Rightarrow> telemetry_data \<Rightarrow> py_error + window" where
  "draw_panel telemetry_win d =
     (let speed_v = dict_get (engine_speed d) (IntV 0);
          gear_v = dict_get (gear d) (IntV 0);
          rpm_v = dict_get (engine_rpm d) 0;
          max_rpm_v = dict_get (max_rpm d) 15000;
          temps_v = dict_get (tire_temperatures d) [IntV 0, IntV 0, IntV 0, IntV 0];
          wear_v = dict_get (tire_wear d) [IntV 0, IntV 0, IntV 0, IntV 0];
          throttle_v = dict_get (throttle d) (IntV 0);
          g_force_v = dict_get (g_force d) (IntV 0);
          brake_v = dict_get (brake d) (IntV 0)
      in
      case py_round2 (dict_get (fuel d) (IntV 0)) of
        Inl e \<Rightarrow> Inl e
      | Inr fuel_v \<Rightarrow>
      (let w1 = addstr telemetry_win 1 2 [Lit ''Speed: '', Val speed_v, Lit '' km/h''] 1;
           w2 = addstr w1 2 2 [Lit ''Gear: '', Val gear_v] 1
       in
       case draw_rpm_bar w2 3 2 rpm_v max_rpm_v of
         Inl e \<Rightarrow> Inl e
       | Inr w3 \<Rightarrow>
       (let w4 = addstr w3 6 2 [Lit ''G-Force: '', Val g_force_v] 1;
            w5 = addstr w4 7 2 [Lit ''Fuel: '', Val fuel_v, Lit ''%''] 1
        in
        case draw_tire_temperatures w5 0 temps_v of
          Inl e \<Rightarrow> Inl e
        | Inr w6 \<Rightarrow>
        (case draw_tire_wear w6 0 wear_v of
           Inl e \<Rightarrow> Inl e
         | Inr w7 \<Rightarrow>
         (case draw_accel_bar w7 3 50 throttle_v of
            Inl e \<Rightarrow> Inl e
          | Inr w8 \<Rightarrow>
          (case draw_brake_bar w8 3 63 brake_v of
             Inl e \<Rightarrow> Inl e
           | Inr w9 \<Rightarrow> Inr (refresh w9)))))))"

definition draw_telemetry_box ::
  "window \<Rightarrow> telemetry_data \<Rightarrow> py_error + (window \<times> window option \<times> bool)" where
  "draw_telemetry_box stdscr d =
     (let scr = clear stdscr; min_width = 75; min_height = 15 in
      if win_width scr < min_width \<or> win_height scr < min_height
      then (case addstr_checked scr 0 0 too_small_notice 1 of
              Inl e \<Rightarrow> Inl e
            | Inr scr1 \<Rightarrow> Inr (refresh scr1, None, False))
      else
        (let box_width = 75; box_height = 15;
             telemetry_win = box (newwin box_height box_width 1 2)
         in case draw_panel telemetry_win d of
              Inl e \<Rightarrow> Inl e
            | Inr panel \<Rightarrow> Inr (scr, Some panel, True)))"

section \<open>Packets and the frame loop\<close>

text \<open>
  Modelled from the spec: the packet types, which the telemetry library declares and the
  source only reads. A packet has a header with the index of the player's car and,
  depending on its kind, one array of per-car records (speed, rotation rate, gear, the
  wheel temperatures, throttle and brake; the lateral g-force; the wheel wear; the fuel
  load); reading an array that the packet does not have raises. The fields carry the
  names under which the source reads them, and only the fields that it reads are kept.
\<close>

record car_telemetry =
  m_speed :: pynum
  m_engineRPM :: int
  m_gear :: pynum
  m_tyresSurfaceTemperature :: "pynum list"
  m_throttle :: pynum
  m_brake :: pynum

record car_motion =
  m_gForceLateral :: pynum

record car_status =
  m_tyresDamage :: "pynum list"

record car_setup =
  m_fuelLoad :: pynum

datatype packet =
    PacketCarTelemetryData nat "car_telemetry list"
  | PacketMotionData nat "car_motion list"
  | PacketCarStatusData nat "car_status list"
  | PacketCarSetupData nat "car_setup list"
  | PacketOther nat

fun m_playerCarIndex :: "packet \<Rightarrow> nat" where
  "m_playerCarIndex (PacketCarTelemetryData i _) = i"
| "m_playerCarIndex (PacketMotionData i _) = i"
| "m_playerCarIndex (PacketCarStatusData i _) = i"
| "m_playerCarIndex (PacketCarSetupData i _) = i"
| "m_playerCarIndex (PacketOther i) = i"

fun cars_telemetry_data :: "packet \<Rightarrow> py_error + car_telemetry list" where
  "cars_telemetry_data (PacketCarTelemetryData _ cars) = Inr cars"
| "cars_telemetry_data _ = Inl AttributeError"

fun cars_motion_data :: "packet \<Rightarrow> py_error + car_motion list" where
  "cars_motion_data (PacketMotionData _ cars) = Inr cars"
| "cars_motion_data _ = Inl AttributeError"

fun cars_status_data :: "packet \<Rightarrow> py_error + car_status list" where
  "cars_status_data (PacketCarStatusData _ cars) = Inr cars"
| "cars_status_data _ = Inl AttributeError"

fun cars_setup_data :: "packet \<Rightarrow> py_error + car_setup list" where
  "cars_setup_data (PacketCarSetupData _ cars) = Inr cars"
| "cars_setup_data _ = Inl AttributeError"

text \<open>
  The local variables of \<^verbatim>\<open>print_telemetry\<close>, the main window, and the panel windows
  created so far (the latest last).
\<close>

record state =
  data :: telemetry_data
  player_car_index :: "nat option"
  motion_data :: "nat \<rightharpoonup> car_motion"
  status_data :: "nat \<rightharpoonup> car_status"
  car_setup_data :: "nat \<rightharpoonup> car_setup"
  stdscr :: window
  panels :: "window list"

definition initial_state :: "window \<Rightarrow> state" where
  "initial_state scr =
     \<lparr>data = empty_data, player_car_index = None, motion_data = Map.empty,
      status_data = Map.empty, car_setup_data = Map.empty, stdscr = scr, panels = []\<rparr>"

text \<open>Lines 183 to 214: the dictionary built from a car telemetry packet.\<close>

definition build_data :: "state \<Rightarrow> nat \<Rightarrow> car_telemetry \<Rightarrow> telemetry_data" where
  "build_data s idx car =
     (let fuel0 = dict_get (fuel (data s)) (IntV 0);
          d0 = \<lparr>engine_speed = Some (m_speed car), engine_rpm = Some (m_engineRPM car),
                gear = Some (m_gear car), max_rpm = Some 15000,
                tire_temperatures = Some (m_tyresSurfaceTemperature car),
                throttle = Some (m_throttle car), brake = Some (m_brake car),
                fuel = Some fuel0, g_force = None, tire_wear = None\<rparr>;
          d1 = (case motion_data s idx of
                  None \<Rightarrow> d0
                | Some m \<Rightarrow> d0\<lparr>g_force := Some (m_gForceLateral m)\<rparr>);
          d2 = (case status_data s idx of
                  None \<Rightarrow> d1
                | Some st \<Rightarrow> d1\<lparr>tire_wear := Some (m_tyresDamage st)\<rparr>)
      in case car_setup_data s idx of
           None \<Rightarrow> d2
         | Some cs \<Rightarrow> d2\<lparr>fuel := Some (m_fuelLoad cs)\<rparr>)"

text \<open>
  The body of the loop over the packets, lines 181 to 235. The boolean of the result is
  false when the function returns (line 217).
\<close>

definition handle_packet :: "state \<Rightarrow> int \<times> packet \<Rightarrow> py_error + (state \<times> bool)" where
  "handle_packet s ev =
     (let packet_id = fst ev; pkt = snd ev in
      if packet_id = 6 then
        (let idx = m_playerCarIndex pkt in
         case cars_telemetry_data pkt of
           Inl e \<Rightarrow> Inl e
         | Inr cars \<Rightarrow>
         (case py_index cars idx of
            Inl e \<Rightarrow> Inl e
          | Inr car \<Rightarrow>
          (let d = build_data s idx car;
               s1 = s\<lparr>data := d, player_car_index := Some idx\<rparr>
           in case draw_telemetry_box (stdscr s1) d of
                Inl e \<Rightarrow> Inl e
              | Inr (scr, panel, ok) \<Rightarrow>
                  Inr (s1\<lparr>stdscr := scr,
                           panels := (case panel of
                                        None \<Rightarrow> panels s1
                                      | Some p \<Rightarrow> panels s1 @ [p])\<rparr>, ok))))
      else if packet_id = 0 then
        (case player_car_index s of
           None \<Rightarrow> Inr (s, True)
         | Some idx \<Rightarrow>
           (case cars_motion_data pkt of
              Inl e \<Rightarrow> Inl e
            | Inr cars \<Rightarrow>
              (case py_index cars idx of
                 Inl e \<Rightarrow> Inl e
               | Inr m \<Rightarrow> Inr (s\<lparr>motion_data := (motion_data s)(idx \<mapsto> m)\<rparr>, True))))
      else if packet_id = 7 then
        (case player_car_index s of
           None \<Rightarrow> Inr (s, True)
         | Some idx \<Rightarrow>
           (case cars_status_data pkt of
              Inl e \<Rightarrow> Inl e
            | Inr cars \<Rightarrow>
              (case py_index cars idx of
                 Inl e \<Rightarrow> Inl e
               | Inr st \<Rightarrow> Inr (s\<lparr>status_data := (status_data s)(idx \<mapsto> st)\<rparr>, True))))
      else if packet_id = 5 then
        (case player_car_index s of
           None \<Rightarrow> Inr (s, True)
         | Some idx \<Rightarrow>
           (case cars_setup_data pkt of
              Inl e \<Rightarrow> Inl e
            | Inr cars \<Rightarrow>
              (case py_index cars idx of
                 Inl e \<Rightarrow> Inl e
               | Inr cs \<Rightarrow>
                   Inr (s\<lparr>car_setup_data := (car_setup_data s)(idx \<mapsto> cs)\<rparr>, True))))
      else Inr (s, True))"

text \<open>
  The loop \<^verbatim>\<open>for packet_id, packet in get_telemetry()\<close> over the packets that one call
  of the source yields.
\<close>

fun for_packets :: "state \<Rightarrow> (int \<times> packet) list \<Rightarrow> py_error + (state \<times> bool)" where
  "for_packets s [] = Inr (s, True)"
| "for_packets s (ev # rest) =
     (case handle_packet s ev of
        Inl e \<Rightarrow> Inl e
      | Inr (s1, ok) \<Rightarrow> if ok then for_packets s1 rest else Inr (s1, False))"

text \<open>
  The loop \<^verbatim>\<open>while True\<close>, lines 179 to 240, over a finite number of rounds; a round is
  the packets of one call of the source and the key that \<^verbatim>\<open>getch\<close> reads after them
  (113 is \<^verbatim>\<open>ord("q")\<close>). The loop ends by the return of line 217 or the break of line 240;
  when the rounds are used up it is still running.
\<close>

datatype outcome = Returned | Quit | Running

fun while_loop ::
  "state \<Rightarrow> ((int \<times> packet) list \<times> int) list \<Rightarrow> py_error + (state \<times> outcome)" where
  "while_loop s [] = Inr (s, Running)"
| "while_loop s (tick # rest) =
     (case for_packets s (fst tick) of
        Inl e \<Rightarrow> Inl e
      | Inr (s1, ok) \<Rightarrow>
          if \<not> ok then Inr (s1, Returned)
          else (let s2 = s1\<lparr>stdscr := refresh (stdscr s1)\<rparr>
                in if snd tick = 113 then Inr (s2, Quit) else while_loop s2 rest))"

text \<open>
  \<^verbatim>\<open>print_telemetry\<close>. The calls that set up the terminal and the palette (lines 160 to
  169) leave no trace in the windows and are not modelled.
\<close>

definition print_telemetry ::
  "window \<Rightarrow> ((int \<times> packet) list \<times> int) list \<Rightarrow> py_error + (state \<times> outcome)" where
  "print_telemetry scr rounds = while_loop (initial_state scr) rounds"

section \<open>Observations and well-formed snapshots\<close>

text \<open>The number of filled cells (\<^verbatim>\<open>"|"\<close>) among the calls of a window.\<close>

fun is_filled_cell :: "call \<Rightarrow> bool" where
  "is_filled_cell (AddStr y x s attr) = (s = [Lit ''|''])"
| "is_filled_cell _ = False"

definition filled_cells :: "window \<Rightarrow> nat" where
  "filled_cells win = length (filter is_filled_cell (win_calls win))"

text \<open>
  The dictionaries that the telemetry box draws without raising: the maximum rotation rate
  is not zero and the quotient of the rates stays far from the overflow of a float, no
  list has more entries than there are wheel labels, throttle and brake are finite, and a
  finite fuel value is of moderate size. The program builds such a dictionary from every
  packet of the game, whose rotation rate is a 16-bit and whose throttle and brake are
  8-bit unsigned integers, with four entries per wheel array.
\<close>

definition gauge_ok :: "pynum \<Rightarrow> bool" where
  "gauge_ok v =
     (case v of
        IntV a \<Rightarrow> \<bar>a\<bar> \<le> 2 ^ 64
      | FloatV (Fin a) \<Rightarrow> \<bar>a\<bar> \<le> 2 ^ 64
      | FloatV _ \<Rightarrow> False)"

definition fuel_ok :: "pynum \<Rightarrow> bool" where
  "fuel_ok v = (case v of FloatV (Fin a) \<Rightarrow> \<bar>a\<bar> \<le> 2 ^ 64 | _ \<Rightarrow> True)"

definition well_formed :: "telemetry_data \<Rightarrow> bool" where
  "well_formed d =
     (dict_get (max_rpm d) 15000 \<noteq> 0 \<and>
      \<bar>dict_get (engine_rpm d) 0\<bar> \<le> 2 ^ 64 * \<bar>dict_get (max_rpm d) 15000\<bar> \<and>
      length (dict_get (tire_temperatures d) [IntV 0, IntV 0, IntV 0, IntV 0]) \<le> 4 \<and>
      length (dict_get (tire_wear d) [IntV 0, IntV 0, IntV 0, IntV 0]) \<le> 4 \<and>
      gauge_ok (dict_get (throttle d) (IntV 0)) \<and>
      gauge_ok (dict_get (brake d) (IntV 0)) \<and>
      fuel_ok (dict_get (fuel d) (IntV 0)))"

section \<open>Example inputs\<close>

text \<open>A terminal of 80 columns and 24 rows, a car, a dictionary and a state of the loop.\<close>

definition example_screen :: window where
  "example_screen = newwin 24 80 0 0"

definition example_car :: car_telemetry where
  "example_car =
     \<lparr>m_speed = IntV 200, m_engineRPM = 9000, m_gear = IntV 5,
      m_tyresSurfaceTemperature = [IntV 90, IntV 95, IntV 100, IntV 105],
      m_throttle = IntV 80, m_brake = IntV 0\<rparr>"

definition example_data :: telemetry_data where
  "example_data =
     \<lparr>engine_speed = Some (IntV 200), engine_rpm = Some 9000, gear = Some (IntV 5),
      max_rpm = Some 15000,
      tire_temperatures = Some [IntV 90, IntV 95, IntV 100, IntV 105],
      throttle = Some (IntV 80), brake = Some (IntV 0), fuel = Some (FloatV (Fin 42)),
      g_force = None, tire_wear = None\<rparr>"

definition example_state :: state where
  "example_state =
     \<lparr>data = example_data, player_car_index = Some 0, motion_data = Map.empty,
      status_data = Map.empty,
      car_setup_data = [0 \<mapsto> \<lparr>m_fuelLoad = FloatV (Fin 42)\<rparr>],
      stdscr = example_screen, panels = []\<rparr>"

section \<open>Rounding to binary64\<close>

text \<open>
  Rounding half to even is monotone, the exponent found by \<open>floor_log2\<close> is the one of
  the binade, and therefore the rounding \<open>fl\<close> to binary64 is monotone and keeps the sign.
  The rounding of a numeral is computed by rewriting.
\<close>

lemma floor_rat_numeral [simp]:
  "\<lfloor>(numeral a :: rat) / numeral b\<rfloor> = numeral a div numeral b"
  using floor_divide_of_int_eq [of "numeral a" "numeral b", where ?'a = rat] by simp

lemma ceiling_rat_numeral [simp]:
  "\<lceil>(numeral a :: rat) / numeral b\<rceil> = - (- numeral a div numeral b)"
  using ceiling_divide_eq_div [of "numeral a" "numeral b", where ?'a = rat] by simp

lemma round_half_even_lower: "\<lfloor>x\<rfloor> \<le> round_half_even x"
  by (simp add: round_half_even_def Let_def)

lemma round_half_even_upper: "round_half_even x \<le> \<lfloor>x\<rfloor> + 1"
  by (simp add: round_half_even_def Let_def)

lemma round_half_even_of_int [simp]: "round_half_even (of_int n) = n"
  by (simp add: round_half_even_def Let_def)

lemma round_half_even_mono:
  assumes "x \<le> y"
  shows "round_half_even x \<le> round_half_even y"
proof (cases "\<lfloor>x\<rfloor> = \<lfloor>y\<rfloor>")
  case True
  with assms show ?thesis
    by (auto simp: round_half_even_def Let_def)
next
  case False
  with assms have "\<lfloor>x\<rfloor> < \<lfloor>y\<rfloor>"
    using floor_mono [of x y] by linarith
  then have "round_half_even x \<le> \<lfloor>y\<rfloor>"
    using round_half_even_upper [of x] by linarith
  then show ?thesis
    using round_half_even_lower [of y] by linarith
qed

lemma floor_log2_bounds:
  assumes "0 < x"
  shows "2 powi floor_log2 x \<le> x" and "x < 2 powi (floor_log2 x + 1)"
proof -
  have "2 powi floor_log2 x \<le> x \<and> x < 2 powi (floor_log2 x + 1)"
  proof (cases "1 \<le> x")
    case True
    define n where "n = \<lfloor>x\<rfloor>"
    have n1: "1 \<le> n" using True by (simp add: n_def le_floor_iff)
    then have bl: "2 ^ nat (bitlen n - 1) \<le> n" "n < 2 ^ nat (bitlen n)"
      using bitlen_bounds [of n] by auto
    have b1: "1 \<le> bitlen n" using n1 by (auto simp: bitlen_alt_def)
    have e: "floor_log2 x = bitlen n - 1" using True by (simp add: floor_log2_def n_def)
    have "(2::rat) powi (bitlen n - 1) = of_int (2 ^ nat (bitlen n - 1))"
      using b1 by (simp add: power_int_def)
    also have "\<dots> \<le> of_int n" using bl(1) by (simp only: of_int_le_iff)
    also have "\<dots> \<le> x" by (simp add: n_def)
    finally have lo: "2 powi (bitlen n - 1) \<le> x" .
    have "n + 1 \<le> 2 ^ nat (bitlen n)" using bl(2) by simp
    then have "(of_int (n + 1) :: rat) \<le> of_int (2 ^ nat (bitlen n))"
      by (simp only: of_int_le_iff)
    moreover have "x < of_int (n + 1)" using floor_correct [of x] by (simp add: n_def)
    moreover have "(2::rat) powi (bitlen n - 1 + 1) = of_int (2 ^ nat (bitlen n))"
      using b1 by (simp add: power_int_def)
    ultimately have "x < 2 powi (bitlen n - 1 + 1)" by linarith
    with lo e show ?thesis by simp
  next
    case False
    define y where "y = 1 / x"
    define m where "m = \<lceil>y\<rceil> - 1"
    have y1: "1 < y" using False assms by (simp add: y_def)
    have m1: "1 \<le> m" using y1 by (simp add: m_def less_ceiling_iff)
    then have bl: "2 ^ nat (bitlen m - 1) \<le> m" "m < 2 ^ nat (bitlen m)"
      using bitlen_bounds [of m] by auto
    have b1: "1 \<le> bitlen m" using m1 by (auto simp: bitlen_alt_def)
    have e: "floor_log2 x = - bitlen m" using False by (simp add: floor_log2_def m_def y_def)
    have my: "of_int m < y" "y \<le> of_int (m + 1)"
      using ceiling_correct [of y] by (simp_all add: m_def)
    have "(of_int (m + 1) :: rat) \<le> of_int (2 ^ nat (bitlen m))"
      using bl(2) by (simp only: of_int_le_iff)
    with my(2) have "y \<le> 2 ^ nat (bitlen m)" by simp
    then have "1 / 2 ^ nat (bitlen m) \<le> x"
      using assms by (simp add: y_def field_simps)
    moreover have "(2::rat) powi (- bitlen m) = 1 / 2 ^ nat (bitlen m)"
      using b1 by (simp add: power_int_def field_simps)
    ultimately have lo: "2 powi (- bitlen m) \<le> x" by simp
    have "(2::rat) ^ nat (bitlen m - 1) \<le> of_int m"
      using bl(1) of_int_le_iff [of "2 ^ nat (bitlen m - 1)" m, where ?'a = rat] by simp
    with my(1) have "2 ^ nat (bitlen m - 1) < y" by linarith
    then have "x < 1 / 2 ^ nat (bitlen m - 1)"
      using assms by (simp add: y_def field_simps)
    moreover have "(2::rat) powi (- bitlen m + 1) = 1 / 2 ^ nat (bitlen m - 1)"
      using b1 by (simp add: power_int_def field_simps nat_diff_distrib)
    ultimately have "x < 2 powi (- bitlen m + 1)" by simp
    with lo e show ?thesis by simp
  qed
  then show "2 powi floor_log2 x \<le> x" and "x < 2 powi (floor_log2 x + 1)" by simp_all
qed

lemma floor_log2_mono:
  assumes "0 < x" "x \<le> y"
  shows "floor_log2 x \<le> floor_log2 y"
proof (rule ccontr)
  assume "\<not> floor_log2 x \<le> floor_log2 y"
  then have "floor_log2 y + 1 \<le> floor_log2 x" by simp
  then have "(2::rat) powi (floor_log2 y + 1) \<le> 2 powi floor_log2 x"
    by (rule power_int_increasing) simp
  moreover have "2 powi floor_log2 x \<le> x" using assms(1) by (rule floor_log2_bounds)
  moreover have "y < 2 powi (floor_log2 y + 1)"
    using assms by (intro floor_log2_bounds) simp
  ultimately show False using assms(2) by linarith
qed

lemma fl_pos_upper:
  assumes "0 < x"
  shows "fl_pos x \<le> 2 powi (max (floor_log2 x) (- 1022) + 1)"
proof -
  define e where "e = max (floor_log2 x) (- 1022)"
  define q :: rat where "q = 2 powi (e - 52)"
  have q0: "0 < q" by (simp add: q_def)
  have "x < 2 powi (floor_log2 x + 1)" using assms by (rule floor_log2_bounds)
  also have "\<dots> \<le> 2 powi (e + 1)" by (rule power_int_increasing) (simp_all add: e_def)
  also have "\<dots> = of_int (2 ^ 53) * q"
    by (simp add: q_def power_int_diff power_int_add)
  finally have "x / q \<le> of_int (2 ^ 53)" using q0 by (simp add: field_simps)
  then have "round_half_even (x / q) \<le> 2 ^ 53"
    using round_half_even_mono [of "x / q" "of_int (2 ^ 53)"]
    by (simp only: round_half_even_of_int)
  then have "(of_int (round_half_even (x / q)) :: rat) \<le> of_int (2 ^ 53)"
    by (simp only: of_int_le_iff)
  then have "of_int (round_half_even (x / q)) * q \<le> of_int (2 ^ 53) * q"
    using q0 by (simp only: mult_le_cancel_right_pos)
  also have "of_int (2 ^ 53) * q = 2 powi (e + 1)"
    by (simp add: q_def power_int_diff power_int_add)
  finally show ?thesis by (simp add: fl_pos_def Let_def e_def q_def)
qed

lemma fl_pos_lower:
  assumes "0 < x" "- 1022 \<le> floor_log2 x"
  shows "2 powi floor_log2 x \<le> fl_pos x"
proof -
  define e where "e = floor_log2 x"
  define q :: rat where "q = 2 powi (e - 52)"
  have q0: "0 < q" by (simp add: q_def)
  have m: "max (floor_log2 x) (- 1022) = e" using assms(2) by (simp add: e_def)
  have eq: "(2::rat) powi e = of_int (2 ^ 52) * q"
    by (simp add: q_def power_int_diff)
  have "2 powi e \<le> x" unfolding e_def using assms(1) by (rule floor_log2_bounds)
  then have "of_int (2 ^ 52) \<le> x / q" using q0 by (simp add: eq field_simps)
  then have "2 ^ 52 \<le> round_half_even (x / q)"
    using round_half_even_mono [of "of_int (2 ^ 52)" "x / q"]
    by (simp only: round_half_even_of_int)
  then have "(of_int (2 ^ 52) :: rat) \<le> of_int (round_half_even (x / q))"
    by (simp only: of_int_le_iff)
  then have "of_int (2 ^ 52) * q \<le> of_int (round_half_even (x / q)) * q"
    using q0 by (simp only: mult_le_cancel_right_pos)
  moreover have "fl_pos x = of_int (round_half_even (x / q)) * q"
    using assms(2) by (simp add: fl_pos_def Let_def q_def e_def max_def)
  ultimately show ?thesis
    unfolding e_def [symmetric] by (simp only: eq)
qed

lemma fl_pos_nonneg:
  assumes "0 < x"
  shows "0 \<le> fl_pos x"
proof -
  define q :: rat where "q = 2 powi (max (floor_log2 x) (- 1022) - 52)"
  have q0: "0 < q" by (simp add: q_def)
  then have "0 \<le> x / q" using assms by simp
  then have "0 \<le> \<lfloor>x / q\<rfloor>" by simp
  then have "0 \<le> round_half_even (x / q)"
    using round_half_even_lower [of "x / q"] by linarith
  then show ?thesis using q0 by (simp add: fl_pos_def Let_def q_def)
qed

lemma fl_pos_mono:
  assumes "0 < x" "x \<le> y"
  shows "fl_pos x \<le> fl_pos y"
proof -
  define ex where "ex = max (floor_log2 x) (- 1022)"
  define ey where "ey = max (floor_log2 y) (- 1022)"
  have y0: "0 < y" using assms by simp
  have le: "ex \<le> ey"
    using floor_log2_mono [OF assms] by (simp add: ex_def ey_def)
  show ?thesis
  proof (cases "ex = ey")
    case True
    define q :: rat where "q = 2 powi (ex - 52)"
    have q0: "0 < q" by (simp add: q_def)
    have "x / q \<le> y / q" using assms(2) q0 by (simp add: divide_right_mono)
    then have "round_half_even (x / q) \<le> round_half_even (y / q)"
      by (rule round_half_even_mono)
    then have "(of_int (round_half_even (x / q)) :: rat) \<le> of_int (round_half_even (y / q))"
      by (simp only: of_int_le_iff)
    then have "of_int (round_half_even (x / q)) * q \<le> of_int (round_half_even (y / q)) * q"
      using q0 by (simp only: mult_le_cancel_right_pos)
    then show ?thesis
      using True by (simp add: fl_pos_def Let_def q_def ex_def ey_def)
  next
    case False
    with le have lt: "ex < ey" by simp
    then have ny: "- 1022 \<le> floor_log2 y" and eyy: "ey = floor_log2 y"
      by (auto simp: ex_def ey_def max_def split: if_splits)
    have "fl_pos x \<le> 2 powi (ex + 1)"
      unfolding ex_def using assms(1) by (rule fl_pos_upper)
    also have "\<dots> \<le> 2 powi ey"
      using lt by (intro power_int_increasing) simp_all
    also have "\<dots> \<le> fl_pos y"
      unfolding eyy using y0 ny by (rule fl_pos_lower)
    finally show ?thesis .
  qed
qed

lemma fl_nonneg: "0 \<le> x \<Longrightarrow> 0 \<le> fl x"
  by (simp add: fl_def fl_pos_nonneg)

lemma fl_mono:
  assumes "x \<le> y"
  shows "fl x \<le> fl y"
proof -
  consider "0 < x" | "x \<le> 0" "0 \<le> y" | "y < 0" by linarith
  then show ?thesis
  proof cases
    case 1
    then show ?thesis using assms fl_pos_mono [of x y] by (simp add: fl_def)
  next
    case 2
    have "fl x \<le> 0" using 2(1) fl_pos_nonneg [of "- x"] by (simp add: fl_def)
    moreover have "0 \<le> fl y" using 2(2) by (rule fl_nonneg)
    ultimately show ?thesis by simp
  next
    case 3
    then have "fl_pos (- y) \<le> fl_pos (- x)" using assms by (intro fl_pos_mono) simp_all
    then show ?thesis using 3 assms by (simp add: fl_def)
  qed
qed

lemma fl_minus: "fl (- x) = - fl x"
  by (simp add: fl_def)

lemma bitlen_numeral:
  "bitlen 1 = 1"
  "bitlen (numeral (Num.Bit0 n)) = bitlen (numeral n) + 1"
  "bitlen (numeral (Num.Bit1 n)) = bitlen (numeral n) + 1"
proof -
  show "bitlen 1 = 1" by (simp add: compute_bitlen)
  have "numeral (Num.Bit0 n) div (2::int) = numeral n" by simp
  then show "bitlen (numeral (Num.Bit0 n)) = bitlen (numeral n) + 1"
    by (subst compute_bitlen) simp
  have "numeral (Num.Bit1 n) div (2::int) = numeral n" by simp
  then show "bitlen (numeral (Num.Bit1 n)) = bitlen (numeral n) + 1"
    by (subst compute_bitlen) simp
qed

lemmas fl_eval = fl_def fl_pos_def floor_log2_def round_half_even_def Let_def bitlen_numeral

lemma fl_30: "fl 30 = 30" by (simp add: fl_eval)
lemma fl_1: "fl 1 = 1" by (simp add: fl_eval)
lemma fl_2_64: "fl (2 ^ 64) = 2 ^ 64" by (simp add: fl_eval)
lemma fl_2_69: "fl (2 ^ 69) = 2 ^ 69" by (simp add: fl_eval)

lemma py_float_of_int_30: "py_float_of_int 30 = Inr 30"
  by (simp add: py_float_of_int_def fl_30)

lemma rpm_bar_fill_nonneg:
  assumes "0 \<le> rpm" "0 < m" "rpm \<le> 2 ^ 64 * m"
  shows "rpm_bar_fill rpm m = Inr \<lfloor>fl (fl (of_int rpm / of_int m) * 30)\<rfloor>"
proof -
  define r where "r = fl (of_int rpm / of_int m)"
  define p where "p = fl (r * 30)"
  have "(of_int rpm :: rat) \<le> of_int (2 ^ 64 * m)" using assms(3) by (simp only: of_int_le_iff)
  then have "(of_int rpm :: rat) / of_int m \<le> 2 ^ 64"
    using assms(2) by (simp add: field_simps)
  then have "r \<le> fl (2 ^ 64)" unfolding r_def by (rule fl_mono)
  then have r_hi: "r \<le> 2 ^ 64" by (simp only: fl_2_64)
  have r_lo: "0 \<le> r" unfolding r_def using assms by (intro fl_nonneg) simp
  have "r * 30 \<le> 2 ^ 69" using r_hi by simp
  then have "p \<le> fl (2 ^ 69)" unfolding p_def by (rule fl_mono)
  then have p_hi: "p \<le> 2 ^ 69" by (simp only: fl_2_69)
  have p_lo: "0 \<le> p" unfolding p_def using r_lo by (intro fl_nonneg) simp
  have "(2::rat) ^ 69 < 2 ^ 1024" by simp
  with p_hi have p_ok: "p < 2 ^ 1024" by linarith
  have "(2::rat) ^ 64 < 2 ^ 1024" by simp
  with r_hi have r_ok: "r < 2 ^ 1024" by linarith
  have 1: "py_int_truediv rpm m = Inr (Fin r)"
    using assms(2) r_ok r_lo by (simp add: py_int_truediv_def r_def [symmetric] Let_def)
  have 2: "py_mul_int (Fin r) 30 = Inr (Fin p)"
    using p_ok p_lo
    by (simp add: py_mul_int_def py_float_of_int_30 py_float_mul_def overflow_to_inf_def
        p_def [symmetric])
  have 3: "py_int (Fin p) = Inr \<lfloor>p\<rfloor>" using p_lo by (simp add: py_int_def)
  have "rpm_bar_fill rpm m = Inr \<lfloor>p\<rfloor>"
    by (simp add: rpm_bar_fill_def 1 2 3)
  then show ?thesis by (simp only: p_def r_def)
qed

section \<open>The fill of the rotation-rate bar, computed\<close>

text \<open>
  The fill at both ends of every interval \<open>[500 k, 500 k + 499]\<close>, computed for each \<open>k\<close>.
\<close>

lemma fill_block_0:
  "list_all (\<lambda>k. \<lfloor>fl (fl (of_int (500 * k) / 15000) * 30)\<rfloor> = k \<and>
       \<lfloor>fl (fl (of_int (500 * k + 499) / 15000) * 30)\<rfloor> = k) [2..12]"
  apply simp
  apply (simp add: fl_eval)
  done

lemma fill_block_1:
  "list_all (\<lambda>k. \<lfloor>fl (fl (of_int (500 * k) / 15000) * 30)\<rfloor> = k \<and>
       \<lfloor>fl (fl (of_int (500 * k + 499) / 15000) * 30)\<rfloor> = k) [13..23]"
  apply simp
  apply (simp add: fl_eval)
  done

lemma fill_block_2:
  "list_all (\<lambda>k. \<lfloor>fl (fl (of_int (500 * k) / 15000) * 30)\<rfloor> = k \<and>
       \<lfloor>fl (fl (of_int (500 * k + 499) / 15000) * 30)\<rfloor> = k) [24..34]"
  apply simp
  apply (simp add: fl_eval)
  done

lemma fill_block_3:
  "list_all (\<lambda>k. \<lfloor>fl (fl (of_int (500 * k) / 15000) * 30)\<rfloor> = k \<and>
       \<lfloor>fl (fl (of_int (500 * k + 499) / 15000) * 30)\<rfloor> = k) [35..45]"
  apply simp
  apply (simp add: fl_eval)
  done

lemma fill_block_4:
  "list_all (\<lambda>k. \<lfloor>fl (fl (of_int (500 * k) / 15000) * 30)\<rfloor> = k \<and>
       \<lfloor>fl (fl (of_int (500 * k + 499) / 15000) * 30)\<rfloor> = k) [46..56]"
  apply simp
  apply (simp add: fl_eval)
  done

lemma fill_block_5:
  "list_all (\<lambda>k. \<lfloor>fl (fl (of_int (500 * k) / 15000) * 30)\<rfloor> = k \<and>
       \<lfloor>fl (fl (of_int (500 * k + 499) / 15000) * 30)\<rfloor> = k) [57..67]"
  apply simp
  apply (simp add: fl_eval)
  done

lemma fill_block_6:
  "list_all (\<lambda>k. \<lfloor>fl (fl (of_int (500 * k) / 15000) * 30)\<rfloor> = k \<and>
       \<lfloor>fl (fl (of_int (500 * k + 499) / 15000) * 30)\<rfloor> = k) [68..78]"
  apply simp
  apply (simp add: fl_eval)
  done

lemma fill_block_7:
  "list_all (\<lambda>k. \<lfloor>fl (fl (of_int (500 * k) / 15000) * 30)\<rfloor> = k \<and>
       \<lfloor>fl (fl (of_int (500 * k + 499) / 15000) * 30)\<rfloor> = k) [79..89]"
  apply simp
  apply (simp add: fl_eval)
  done

lemma fill_block_8:
  "list_all (\<lambda>k. \<lfloor>fl (fl (of_int (500 * k) / 15000) * 30)\<rfloor> = k \<and>
       \<lfloor>fl (fl (of_int (500 * k + 499) / 15000) * 30)\<rfloor> = k) [90..100]"
  apply simp
  apply (simp add: fl_eval)
  done

lemma fill_block_9:
  "list_all (\<lambda>k. \<lfloor>fl (fl (of_int (500 * k) / 15000) * 30)\<rfloor> = k \<and>
       \<lfloor>fl (fl (of_int (500 * k + 499) / 15000) * 30)\<rfloor> = k) [101..111]"
  apply simp
  apply (simp add: fl_eval)
  done

lemma fill_block_10:
  "list_all (\<lambda>k. \<lfloor>fl (fl (of_int (500 * k) / 15000) * 30)\<rfloor> = k \<and>
       \<lfloor>fl (fl (of_int (500 * k + 499) / 15000) * 30)\<rfloor> = k) [112..122]"
  apply simp
  apply (simp add: fl_eval)
  done

lemma fill_block_11:
  "list_all (\<lambda>k. \<lfloor>fl (fl (of_int (500 * k) / 15000) * 30)\<rfloor> = k \<and>
       \<lfloor>fl (fl (of_int (500 * k + 499) / 15000) * 30)\<rfloor> = k) [124..131]"
  apply simp
  apply (simp add: fl_eval)
  done

lemma fill_block_low:
  "\<lfloor>fl (fl (of_int (500 * 0) / 15000) * 30)\<rfloor> = 0"
  "\<lfloor>fl (fl (of_int (500 * 0 + 499) / 15000) * 30)\<rfloor> = 0"
  "\<lfloor>fl (fl (of_int (500 * 1) / 15000) * 30)\<rfloor> = 1"
  "\<lfloor>fl (fl (of_int (500 * 1 + 499) / 15000) * 30)\<rfloor> = 1"
  by (simp_all add: fl_eval)

lemma fill_block_123:
  "\<lfloor>fl (fl (of_int 61500 / 15000) * 30)\<rfloor> = 122"
  "\<lfloor>fl (fl (of_int 61501 / 15000) * 30)\<rfloor> = 123"
  "\<lfloor>fl (fl (of_int 61999 / 15000) * 30)\<rfloor> = 123"
  by (simp_all add: fl_eval)

lemma fill_endpoints:
  assumes "0 \<le> k" "k \<le> 131" "k \<noteq> 123"
  shows "\<lfloor>fl (fl (of_int (500 * k) / 15000) * 30)\<rfloor> = k \<and>
         \<lfloor>fl (fl (of_int (500 * k + 499) / 15000) * 30)\<rfloor> = k"
proof -
  let ?P = "\<lambda>k. \<lfloor>fl (fl (of_int (500 * k) / 15000) * 30)\<rfloor> = k \<and>
       \<lfloor>fl (fl (of_int (500 * k + 499) / 15000) * 30)\<rfloor> = k"
  have in_block: "\<And>a b. list_all ?P [a..b] \<Longrightarrow> a \<le> k \<Longrightarrow> k \<le> b \<Longrightarrow> ?P k"
    unfolding list_all_iff set_upto by simp
  have split: "[2..122::int] = [2..12] @ [13..23] @ [24..34] @ [35..45] @ [46..56] @ [57..67] @ [68..78] @ [79..89] @ [90..100] @ [101..111] @ [112..122]"
    by simp
  have low: "list_all ?P [2..122]"
    unfolding split list_all_append
    by (intro conjI fill_block_0 fill_block_1 fill_block_2 fill_block_3 fill_block_4 fill_block_5 fill_block_6 fill_block_7 fill_block_8 fill_block_9 fill_block_10)
  consider "k = 0" | "k = 1" | "2 \<le> k \<and> k \<le> 122" | "124 \<le> k \<and> k \<le> 131"
    using assms by linarith
  then show ?thesis
  proof cases
    case 1
    then show ?thesis using fill_block_low(1,2) by simp
  next
    case 2
    then show ?thesis using fill_block_low(3,4) by simp
  next
    case 3
    then show ?thesis using in_block [OF low] by blast
  next
    case 4
    then show ?thesis using in_block [OF fill_block_11] by blast
  qed
qed

section \<open>What the gauges draw\<close>

text \<open>
  The loops of the gauges written as lists of calls: every gauge appends its calls to
  those of the window and changes nothing else.
\<close>

lemma upto_from_0: "[0..numeral n] = 0 # [1..numeral n]"
  by (simp add: upto_rec1)

lemma upto_from_1: "[1..numeral n] = 1 # [2..numeral n]"
  by (simp add: upto_rec1)

lemma window_append [simp]:
  "(w\<lparr>win_calls := win_calls w @ cs\<rparr>)\<lparr>win_calls := win_calls (w\<lparr>win_calls := win_calls w @ cs\<rparr>) @ ds\<rparr>
     = w\<lparr>win_calls := win_calls w @ cs @ ds\<rparr>"
  by simp

lemma foldl_rpm_cell:
  "foldl (rpm_cell y x fill c) w js =
     w\<lparr>win_calls := win_calls w @
        map (\<lambda>i. AddStr y (x + 1 + i) [Lit (if i < fill then ''|'' else '' '')] c) js\<rparr>"
  by (induction js arbitrary: w) (simp_all add: rpm_cell_def addstr_def)

lemma draw_rpm_bar_calls:
  assumes "rpm_bar_fill rpm m = Inr fill"
  shows "draw_rpm_bar win y x rpm m =
     Inr (win\<lparr>win_calls := win_calls win @
        AddStr y x [Lit ''[''] 1 #
        map (\<lambda>i. AddStr y (x + 1 + i) [Lit (if i < fill then ''|'' else '' '')] (rpm_color rpm))
          [0..29] @
        [AddStr y (x + 31) [Lit '']''] 1,
         AddStr y (x + 33) [Val (IntV rpm), Lit '' RPM''] 1]\<rparr>)"
  using assms
  by (simp add: draw_rpm_bar_def Let_def foldl_rpm_cell py_range_def addstr_def)

lemma foldl_brake_cell:
  "foldl (brake_cell y x fill) w js =
     w\<lparr>win_calls := win_calls w @
        map (\<lambda>i. AddStr (y + 10 - i - 1) (x + 7) [Lit (if i < fill then ''|'' else '' '')] 3) js\<rparr>"
  by (induction js arbitrary: w) (simp_all add: brake_cell_def addstr_def)

lemma foldl_accel_cell:
  "foldl (accel_cell y x fill) w js =
     w\<lparr>win_calls := win_calls w @
        map (\<lambda>i. AddStr (y + 10 - i - 1) (x + 10) [Lit (if i < fill then ''|'' else '' '')] 2) js\<rparr>"
  by (induction js arbitrary: w) (simp_all add: accel_cell_def addstr_def)

lemma draw_brake_bar_appends:
  assumes "vertical_bar_fill v = Inr fill"
  shows "\<exists>cs. draw_brake_bar win y x v = Inr (win\<lparr>win_calls := win_calls win @ cs\<rparr>)"
proof (cases "win_height win \<le> y + 10 \<or> win_width win \<le> x + 2")
  case True
  then have "draw_brake_bar win y x v = Inr (win\<lparr>win_calls := win_calls win @ []\<rparr>)"
    using assms by (simp add: draw_brake_bar_def Let_def)
  then show ?thesis by blast
next
  case False
  then have "draw_brake_bar win y x v = Inr (win\<lparr>win_calls := win_calls win @
      AddStr y x [Lit ''Brake:''] 1 #
      map (\<lambda>i. AddStr (y + 10 - i - 1) (x + 7) [Lit (if i < fill then ''|'' else '' '')] 3)
        (py_range 10)\<rparr>)"
    using assms by (simp add: draw_brake_bar_def Let_def foldl_brake_cell addstr_def)
  then show ?thesis by blast
qed

lemma draw_accel_bar_appends:
  assumes "vertical_bar_fill v = Inr fill"
  shows "\<exists>cs. draw_accel_bar win y x v = Inr (win\<lparr>win_calls := win_calls win @ cs\<rparr>)"
proof (cases "win_height win \<le> y + 10 \<or> win_width win \<le> x + 2")
  case True
  then have "draw_accel_bar win y x v = Inr (win\<lparr>win_calls := win_calls win @ []\<rparr>)"
    using assms by (simp add: draw_accel_bar_def Let_def)
  then show ?thesis by blast
next
  case False
  then have "draw_accel_bar win y x v = Inr (win\<lparr>win_calls := win_calls win @
      AddStr y x [Lit ''Throttle:''] 1 #
      map (\<lambda>i. AddStr (y + 10 - i - 1) (x + 10) [Lit (if i < fill then ''|'' else '' '')] 2)
        (py_range 10)\<rparr>)"
    using assms by (simp add: draw_accel_bar_def Let_def foldl_accel_cell addstr_def)
  then show ?thesis by blast
qed

lemma draw_tire_temperatures_calls:
  "i + length temps \<le> 4 \<Longrightarrow>
   draw_tire_temperatures win i temps =
     Inr (win\<lparr>win_calls := win_calls win @
        map (\<lambda>k. AddStr (9 + int (i + k)) 2
               [Lit (tire_labels ! (i + k)), Lit '' Temp: '', Val (temps ! k),
                Lit [CHR 0xB0, CHR ''C'']] (temp_color (temps ! k)))
          [0..<length temps]\<rparr>)"
proof (induction temps arbitrary: win i)
  case Nil
  then show ?case by simp
next
  case (Cons t ts)
  have len: "i < length tire_labels" using Cons.prems by (simp add: tire_labels_def)
  have "Suc i + length ts \<le> 4" using Cons.prems by simp
  note IH = Cons.IH [OF this]
  have upt: "[0..<length (t # ts)] = 0 # map Suc [0..<length ts]"
    by (simp add: upt_conv_Cons map_Suc_upt del: upt_Suc)
  show ?case
    unfolding upt using len
    by (simp add: IH py_index_def Let_def addstr_def o_def)
qed

lemma draw_tire_wear_calls:
  "i + length wear \<le> 4 \<Longrightarrow>
   draw_tire_wear win i wear =
     Inr (win\<lparr>win_calls := win_calls win @
        map (\<lambda>k. AddStr (9 + int (i + k)) 30
               [Lit (tire_labels ! (i + k)), Lit '' Wear: '', Val (wear ! k), Lit ''%'']
               (wear_color (wear ! k)))
          [0..<length wear]\<rparr>)"
proof (induction wear arbitrary: win i)
  case Nil
  then show ?case by simp
next
  case (Cons t ts)
  have len: "i < length tire_labels" using Cons.prems by (simp add: tire_labels_def)
  have "Suc i + length ts \<le> 4" using Cons.prems by simp
  note IH = Cons.IH [OF this]
  have upt: "[0..<length (t # ts)] = 0 # map Suc [0..<length ts]"
    by (simp add: upt_conv_Cons map_Suc_upt del: upt_Suc)
  show ?case
    unfolding upt using len
    by (simp add: IH py_index_def Let_def addstr_def o_def)
qed

lemma rpm_bar_fill_10000: "rpm_bar_fill 10000 15000 = Inr 20"
  by (simp add: rpm_bar_fill_nonneg) (simp add: fl_eval)

section \<open>The fill is monotone and the gauges do not overflow\<close>

text \<open>
  The fill count grows with the rotation rate, which extends the computed ends of the
  intervals to every rate in between; within the bounds of a well-formed dictionary no
  quotient, product or rounding overflows.
\<close>

lemma fill_value_mono:
  assumes "0 < m" "a \<le> b"
  shows "\<lfloor>fl (fl (of_int a / of_int m) * 30)\<rfloor> \<le> \<lfloor>fl (fl (of_int b / of_int m) * 30)\<rfloor>"
proof -
  have "(of_int a :: rat) / of_int m \<le> of_int b / of_int m"
    using assms by (simp add: divide_right_mono)
  then have "fl (of_int a / of_int m) \<le> fl (of_int b / of_int m)" by (rule fl_mono)
  then have "fl (of_int a / of_int m) * 30 \<le> fl (of_int b / of_int m) * 30" by simp
  then have "fl (fl (of_int a / of_int m) * 30) \<le> fl (fl (of_int b / of_int m) * 30)"
    by (rule fl_mono)
  then show ?thesis by (rule floor_mono)
qed

lemma exact_fill: "\<lfloor>(of_int rpm / 15000 * 30 :: rat)\<rfloor> = rpm div 500"
proof -
  have "(of_int rpm / 15000 * 30 :: rat) = of_int rpm / of_int 500" by simp
  then show ?thesis by (simp only: floor_divide_of_int_eq)
qed

lemma rpm_bar_fill_15000:
  assumes "0 \<le> rpm" "rpm \<le> 65535" "rpm \<noteq> 61500"
  shows "rpm_bar_fill rpm 15000 = Inr (rpm div 500)"
proof -
  define k where "k = rpm div 500"
  define F where "F = (\<lambda>r::int. \<lfloor>fl (fl (of_int r / of_int (15000::int)) * 30)\<rfloor>)"
  have F_mono: "\<And>a b. a \<le> b \<Longrightarrow> F a \<le> F b"
    unfolding F_def by (rule fill_value_mono) simp_all
  have k_bounds: "0 \<le> k" "k \<le> 131" "500 * k \<le> rpm" "rpm \<le> 500 * k + 499"
    using assms by (simp_all add: k_def)
  have val: "rpm_bar_fill rpm 15000 = Inr (F rpm)"
    unfolding F_def using assms by (intro rpm_bar_fill_nonneg) simp_all
  have "F rpm = k"
  proof (cases "k = 123")
    case False
    then have "F (500 * k) = k" "F (500 * k + 499) = k"
      using fill_endpoints [of k] k_bounds by (simp_all add: F_def)
    moreover have "F (500 * k) \<le> F rpm" "F rpm \<le> F (500 * k + 499)"
      using k_bounds by (simp_all add: F_mono)
    ultimately show ?thesis by linarith
  next
    case True
    then have "61501 \<le> rpm" "rpm \<le> 61999" using k_bounds assms by simp_all
    then have "F 61501 \<le> F rpm" "F rpm \<le> F 61999" by (simp_all add: F_mono)
    moreover have "F 61501 = 123" "F 61999 = 123"
      using fill_block_123 by (simp_all add: F_def)
    ultimately show ?thesis using True by linarith
  qed
  with val show ?thesis by (simp add: k_def)
qed

lemma rpm_bar_fill_61500: "rpm_bar_fill 61500 15000 = Inr 122"
proof -
  have "rpm_bar_fill 61500 15000 = Inr \<lfloor>fl (fl (of_int 61500 / of_int 15000) * 30)\<rfloor>"
    by (intro rpm_bar_fill_nonneg) simp_all
  then show ?thesis using fill_block_123(1) by simp
qed

lemma rpm_bar_fill_saturated:
  assumes "0 < m" "m \<le> rpm" "rpm \<le> 2 ^ 64 * m"
  shows "\<exists>fill. rpm_bar_fill rpm m = Inr fill \<and> 30 \<le> fill"
proof -
  have "(1::rat) \<le> of_int rpm / of_int m" using assms by simp
  then have "fl 1 \<le> fl (of_int rpm / of_int m)" by (rule fl_mono)
  then have "30 \<le> fl (of_int rpm / of_int m) * 30" by (simp add: fl_1)
  then have "fl 30 \<le> fl (fl (of_int rpm / of_int m) * 30)" by (rule fl_mono)
  then have "(30::rat) \<le> fl (fl (of_int rpm / of_int m) * 30)" by (simp only: fl_30)
  then have "30 \<le> \<lfloor>fl (fl (of_int rpm / of_int m) * 30)\<rfloor>" by (simp add: le_floor_iff)
  moreover have "rpm_bar_fill rpm m = Inr \<lfloor>fl (fl (of_int rpm / of_int m) * 30)\<rfloor>"
    using assms by (intro rpm_bar_fill_nonneg) simp_all
  ultimately show ?thesis by blast
qed

lemma fl_abs_bound:
  assumes "fl b = b" "\<bar>x\<bar> \<le> b"
  shows "\<bar>fl x\<bar> \<le> b"
proof -
  have "fl x \<le> fl b" using assms(2) by (intro fl_mono) simp
  moreover have "fl (- b) \<le> fl x" using assms(2) by (intro fl_mono) simp
  ultimately show ?thesis using assms(1) by (simp add: fl_minus abs_le_iff)
qed

lemma fl_10: "fl 10 = 10" by (simp add: fl_eval)

lemma fl_100: "fl 100 = 100" by (simp add: fl_eval)

lemma py_float_of_int_10: "py_float_of_int 10 = Inr 10"
  by (simp add: py_float_of_int_def fl_10)

lemma py_float_of_int_100: "py_float_of_int 100 = Inr 100"
  by (simp add: py_float_of_int_def fl_100)

lemma scaled_fill_total:
  assumes "\<bar>r\<bar> \<le> 2 ^ 64" "py_float_of_int n = Inr c" "\<bar>c\<bar> \<le> 32"
  shows "\<exists>fill. (case py_mul_int (Fin r) n of Inl e \<Rightarrow> Inl e | Inr p \<Rightarrow> py_int p) = Inr fill"
proof -
  have "\<bar>r * c\<bar> \<le> 2 ^ 64 * 32" unfolding abs_mult using assms(1,3) by (intro mult_mono) simp_all
  then have "\<bar>r * c\<bar> \<le> 2 ^ 69" by simp
  then have "\<bar>fl (r * c)\<bar> \<le> 2 ^ 69" by (intro fl_abs_bound fl_2_69)
  moreover have "(2::rat) ^ 69 < 2 ^ 1024" by simp
  ultimately have "\<bar>fl (r * c)\<bar> < 2 ^ 1024" by linarith
  then have "overflow_to_inf (fl (r * c)) = Fin (fl (r * c))"
    by (simp add: overflow_to_inf_def abs_less_iff)
  then show ?thesis
    by (simp add: py_mul_int_def assms(2) py_float_mul_def py_int_def)
qed

lemma rpm_bar_fill_total:
  assumes "m \<noteq> 0" "\<bar>rpm\<bar> \<le> 2 ^ 64 * \<bar>m\<bar>"
  shows "\<exists>fill. rpm_bar_fill rpm m = Inr fill"
proof -
  define r where "r = fl (of_int rpm / of_int m)"
  have "(of_int \<bar>rpm\<bar> :: rat) \<le> of_int (2 ^ 64 * \<bar>m\<bar>)" using assms(2) by (simp only: of_int_le_iff)
  then have "\<bar>of_int rpm / of_int m :: rat\<bar> \<le> 2 ^ 64"
    using assms(1) by (simp add: field_simps)
  then have r: "\<bar>r\<bar> \<le> 2 ^ 64" unfolding r_def by (intro fl_abs_bound fl_2_64)
  moreover have "(2::rat) ^ 64 < 2 ^ 1024" by simp
  ultimately have "\<bar>r\<bar> < 2 ^ 1024" by linarith
  then have "py_int_truediv rpm m = Inr (Fin r)"
    using assms(1) by (simp add: py_int_truediv_def r_def [symmetric] Let_def)
  then show ?thesis
    unfolding rpm_bar_fill_def using scaled_fill_total [OF r py_float_of_int_30] by simp
qed

lemma vertical_bar_fill_total:
  assumes "gauge_ok v"
  shows "\<exists>fill. vertical_bar_fill v = Inr fill"
proof -
  have "\<exists>r. py_truediv v 100 = Inr (Fin r) \<and> \<bar>r\<bar> \<le> 2 ^ 64"
  proof (cases v)
    case (IntV a)
    define r where "r = fl (of_int a / 100)"
    have "\<bar>a\<bar> \<le> 2 ^ 64" using assms IntV by (simp add: gauge_ok_def)
    then have "(of_int \<bar>a\<bar> :: rat) \<le> of_int (2 ^ 64)" by (simp only: of_int_le_iff)
    then have "\<bar>of_int a / 100 :: rat\<bar> \<le> 2 ^ 64" by simp
    then have r: "\<bar>r\<bar> \<le> 2 ^ 64" unfolding r_def by (intro fl_abs_bound fl_2_64)
    moreover have "(2::rat) ^ 64 < 2 ^ 1024" by simp
    ultimately have "\<bar>r\<bar> < 2 ^ 1024" by linarith
    then have "py_truediv v 100 = Inr (Fin r)"
      using IntV by (simp add: py_truediv_def py_int_truediv_def r_def [symmetric] Let_def)
    with r show ?thesis by blast
  next
    case (FloatV x)
    then obtain a where x: "x = Fin a" and a: "\<bar>a\<bar> \<le> 2 ^ 64"
      using assms by (cases x) (simp_all add: gauge_ok_def)
    define r where "r = fl (a / 100)"
    have "\<bar>a / 100\<bar> \<le> 2 ^ 64" using a by simp
    then have r: "\<bar>r\<bar> \<le> 2 ^ 64" unfolding r_def by (intro fl_abs_bound fl_2_64)
    moreover have "(2::rat) ^ 64 < 2 ^ 1024" by simp
    ultimately have "\<bar>r\<bar> < 2 ^ 1024" by linarith
    then have "overflow_to_inf r = Fin r" by (simp add: overflow_to_inf_def abs_less_iff)
    then have "py_truediv v 100 = Inr (Fin r)"
      using FloatV x
      by (simp add: py_truediv_def py_float_of_int_100 py_float_truediv_def r_def [symmetric])
    with r show ?thesis by blast
  qed
  then obtain r where "py_truediv v 100 = Inr (Fin r)" "\<bar>r\<bar> \<le> 2 ^ 64" by blast
  then show ?thesis
    unfolding vertical_bar_fill_def using scaled_fill_total [OF _ py_float_of_int_10, of r] by simp
qed

lemma round_half_even_abs: "\<bar>of_int (round_half_even x) :: rat\<bar> \<le> \<bar>x\<bar> + 1"
proof -
  have "of_int \<lfloor>x\<rfloor> \<le> x" "x < of_int \<lfloor>x\<rfloor> + 1" by linarith+
  moreover have "(of_int \<lfloor>x\<rfloor> :: rat) \<le> of_int (round_half_even x)"
    using round_half_even_lower [of x] by (simp only: of_int_le_iff)
  moreover have "(of_int (round_half_even x) :: rat) \<le> of_int (\<lfloor>x\<rfloor> + 1)"
    using round_half_even_upper [of x] by (simp only: of_int_le_iff)
  ultimately show ?thesis by (simp add: abs_le_iff) linarith
qed

lemma py_round2_total:
  assumes "fuel_ok v"
  shows "\<exists>w. py_round2 v = Inr w"
proof (cases v)
  case (IntV a)
  then show ?thesis by (simp add: py_round2_def)
next
  case (FloatV x)
  show ?thesis
  proof (cases x)
    case (Fin a)
    then have a: "\<bar>a\<bar> \<le> 2 ^ 64" using assms FloatV by (simp add: fuel_ok_def)
    define r where "r = fl (of_int (round_half_even (a * 100)) / 100)"
    have "\<bar>of_int (round_half_even (a * 100)) :: rat\<bar> \<le> \<bar>a * 100\<bar> + 1"
      by (rule round_half_even_abs)
    also have "\<dots> \<le> 2 ^ 64 * 100 + 1" using a by (simp add: abs_mult)
    finally have "\<bar>of_int (round_half_even (a * 100)) / 100 :: rat\<bar> \<le> 2 ^ 69" by simp
    then have "\<bar>r\<bar> \<le> 2 ^ 69" unfolding r_def by (intro fl_abs_bound fl_2_69)
    moreover have "(2::rat) ^ 69 < 2 ^ 1024" by simp
    ultimately have "\<bar>r\<bar> < 2 ^ 1024" by linarith
    then show ?thesis
      using FloatV Fin by (simp add: py_round2_def r_def [symmetric] Let_def)
  qed (use FloatV in \<open>simp_all add: py_round2_def\<close>)
qed

lemma full_cells:
  assumes "30 \<le> fill"
  shows "map (\<lambda>i. AddStr y (x + 1 + i) [Lit (if i < fill then ''|'' else '' '')] c) [0..29] =
         map (\<lambda>i. AddStr y (x + 1 + i) [Lit ''|''] c) [0..29]"
  using assms by (intro map_cong) auto

lemma empty_cells:
  assumes "fill \<le> 0"
  shows "map (\<lambda>i. AddStr y (x + 1 + i) [Lit (if i < fill then ''|'' else '' '')] c) [0..29] =
         map (\<lambda>i. AddStr y (x + 1 + i) [Lit '' ''] c) [0..29]"
  using assms by (intro map_cong) auto

lemma filled_cells_full_bar:
  "filled_cells (win\<lparr>win_calls := win_calls win @
          AddStr y x [Lit ''[''] 1 #
          map (\<lambda>i. AddStr y (x + 1 + i) [Lit ''|''] c) [0..29] @
          [AddStr y (x + 31) [Lit '']''] 1,
           AddStr y (x + 33) [Val (IntV rpm), Lit '' RPM''] 1]\<rparr>) = filled_cells win + 30"
proof -
  have "filter is_filled_cell (map (\<lambda>i. AddStr y (x + 1 + i) [Lit ''|''] c) [0..29]) =
        map (\<lambda>i. AddStr y (x + 1 + i) [Lit ''|''] c) [0..29]"
    by (rule filter_True) auto
  moreover have "length [0..29::int] = 30" by simp
  ultimately show ?thesis by (simp add: filled_cells_def)
qed

section \<open>The telemetry box is drawn completely\<close>

text \<open>
  For a well-formed dictionary every step of the panel succeeds, and the panel receives
  the border, the lines, the gauges and the final refresh in this order.
\<close>

lemma draw_rpm_bar_appends:
  assumes "rpm_bar_fill rpm m = Inr fill"
  shows "\<exists>cs. draw_rpm_bar win y x rpm m = Inr (win\<lparr>win_calls := win_calls win @ cs\<rparr>)"
  using draw_rpm_bar_calls [OF assms] by blast

lemma draw_panel_ok:
  assumes "well_formed d"
  shows "\<exists>cs. draw_panel win d =
     Inr (win\<lparr>win_calls := win_calls win @
       AddStr 1 2 [Lit ''Speed: '', Val (dict_get (engine_speed d) (IntV 0)), Lit '' km/h''] 1 #
       AddStr 2 2 [Lit ''Gear: '', Val (dict_get (gear d) (IntV 0))] 1 #
       cs @ [Refresh]\<rparr>)"
proof -
  from assms obtain fuel_v where fuel_v: "py_round2 (dict_get (fuel d) (IntV 0)) = Inr fuel_v"
    using py_round2_total unfolding well_formed_def by blast
  from assms obtain fill
    where "rpm_bar_fill (dict_get (engine_rpm d) 0) (dict_get (max_rpm d) 15000) = Inr fill"
    using rpm_bar_fill_total unfolding well_formed_def by blast
  note rpm = draw_rpm_bar_appends [OF this]
  have temps: "\<And>w. \<exists>cs. draw_tire_temperatures w 0
      (dict_get (tire_temperatures d) [IntV 0, IntV 0, IntV 0, IntV 0]) =
        Inr (w\<lparr>win_calls := win_calls w @ cs\<rparr>)"
    using assms draw_tire_temperatures_calls [where i = 0] unfolding well_formed_def by auto
  have wear: "\<And>w. \<exists>cs. draw_tire_wear w 0
      (dict_get (tire_wear d) [IntV 0, IntV 0, IntV 0, IntV 0]) =
        Inr (w\<lparr>win_calls := win_calls w @ cs\<rparr>)"
    using assms draw_tire_wear_calls [where i = 0] unfolding well_formed_def by auto
  from assms obtain tf where "vertical_bar_fill (dict_get (throttle d) (IntV 0)) = Inr tf"
    using vertical_bar_fill_total unfolding well_formed_def by blast
  note accel = draw_accel_bar_appends [OF this]
  from assms obtain bf where "vertical_bar_fill (dict_get (brake d) (IntV 0)) = Inr bf"
    using vertical_bar_fill_total unfolding well_formed_def by blast
  note brake = draw_brake_bar_appends [OF this]
  define w2 where "w2 = addstr (addstr win 1 2
      [Lit ''Speed: '', Val (dict_get (engine_speed d) (IntV 0)), Lit '' km/h''] 1) 2 2
      [Lit ''Gear: '', Val (dict_get (gear d) (IntV 0))] 1"
  obtain c3 where c3: "draw_rpm_bar w2 3 2 (dict_get (engine_rpm d) 0) (dict_get (max_rpm d) 15000)
      = Inr (w2\<lparr>win_calls := win_calls w2 @ c3\<rparr>)"
    using rpm by blast
  define w5 where "w5 = addstr (addstr (w2\<lparr>win_calls := win_calls w2 @ c3\<rparr>) 6 2
      [Lit ''G-Force: '', Val (dict_get (g_force d) (IntV 0))] 1) 7 2
      [Lit ''Fuel: '', Val fuel_v, Lit ''%''] 1"
  obtain c6 where c6: "draw_tire_temperatures w5 0
      (dict_get (tire_temperatures d) [IntV 0, IntV 0, IntV 0, IntV 0]) =
        Inr (w5\<lparr>win_calls := win_calls w5 @ c6\<rparr>)"
    using temps by blast
  obtain c7 where c7: "draw_tire_wear (w5\<lparr>win_calls := win_calls w5 @ c6\<rparr>) 0
      (dict_get (tire_wear d) [IntV 0, IntV 0, IntV 0, IntV 0]) =
        Inr (w5\<lparr>win_calls := win_calls w5 @ c6 @ c7\<rparr>)"
    using wear [of "w5\<lparr>win_calls := win_calls w5 @ c6\<rparr>"] by auto
  obtain c8 where c8: "draw_accel_bar (w5\<lparr>win_calls := win_calls w5 @ c6 @ c7\<rparr>) 3 50
      (dict_get (throttle d) (IntV 0)) = Inr (w5\<lparr>win_calls := win_calls w5 @ c6 @ c7 @ c8\<rparr>)"
    using accel [of "w5\<lparr>win_calls := win_calls w5 @ c6 @ c7\<rparr>" 3 50] by auto
  obtain c9 where c9: "draw_brake_bar (w5\<lparr>win_calls := win_calls w5 @ c6 @ c7 @ c8\<rparr>) 3 63
      (dict_get (brake d) (IntV 0)) = Inr (w5\<lparr>win_calls := win_calls w5 @ c6 @ c7 @ c8 @ c9\<rparr>)"
    using brake [of "w5\<lparr>win_calls := win_calls w5 @ c6 @ c7 @ c8\<rparr>" 3 63] by auto
  have "draw_panel win d = Inr (refresh (w5\<lparr>win_calls := win_calls w5 @ c6 @ c7 @ c8 @ c9\<rparr>))"
    unfolding draw_panel_def Let_def fuel_v sum.case w2_def [symmetric] c3
      w5_def [symmetric] c6 c7 c8 c9
    by (rule refl)
  then have "draw_panel win d =
     Inr (win\<lparr>win_calls := win_calls win @
       AddStr 1 2 [Lit ''Speed: '', Val (dict_get (engine_speed d) (IntV 0)), Lit '' km/h''] 1 #
       AddStr 2 2 [Lit ''Gear: '', Val (dict_get (gear d) (IntV 0))] 1 #
       (c3 @ AddStr 6 2 [Lit ''G-Force: '', Val (dict_get (g_force d) (IntV 0))] 1 #
        AddStr 7 2 [Lit ''Fuel: '', Val fuel_v, Lit ''%''] 1 # c6 @ c7 @ c8 @ c9) @ [Refresh]\<rparr>)"
    by (simp add: w5_def w2_def addstr_def refresh_def)
  then show ?thesis by blast
qed

lemma fits_notice:
  "fits scr 0 0 too_small_notice =
     (0 < win_height scr \<and> 0 < win_width scr \<and> 48 < win_height scr * win_width scr)"
  by (simp add: fits_def too_small_notice_def)

lemma fits_clear:
  "fits (clear scr) y x s = fits scr y x s"
  by (simp add: fits_def clear_def)

lemma draw_telemetry_box_small:
  assumes "win_width scr < 75 \<or> win_height scr < 15" "fits scr 0 0 too_small_notice"
  shows "draw_telemetry_box scr d =
     Inr (scr\<lparr>win_calls := win_calls scr @
            [Clear, AddStr 0 0 [Lit too_small_notice] 1, Refresh]\<rparr>,
          None, False)"
proof -
  have "addstr_checked (clear scr) 0 0 too_small_notice 1 =
      Inr (addstr (clear scr) 0 0 [Lit too_small_notice] 1)"
    using assms(2) by (simp add: addstr_checked_def fits_clear)
  moreover have "win_width (clear scr) < 75 \<or> win_height (clear scr) < 15"
    using assms(1) by (simp add: clear_def)
  ultimately show ?thesis
    by (simp add: draw_telemetry_box_def Let_def) (simp add: clear_def addstr_def refresh_def)
qed

lemma draw_telemetry_box_tiny:
  assumes "win_width scr < 75 \<or> win_height scr < 15" "\<not> fits scr 0 0 too_small_notice"
  shows "draw_telemetry_box scr d = Inl CursesError"
proof -
  have "addstr_checked (clear scr) 0 0 too_small_notice 1 = Inl CursesError"
    using assms(2) by (simp add: addstr_checked_def fits_clear)
  moreover have "win_width (clear scr) < 75 \<or> win_height (clear scr) < 15"
    using assms(1) by (simp add: clear_def)
  ultimately show ?thesis
    by (simp add: draw_telemetry_box_def Let_def)
qed

lemma draw_telemetry_box_ok:
  assumes "well_formed d" "75 \<le> win_width scr" "15 \<le> win_height scr"
  shows "\<exists>cs. draw_telemetry_box scr d =
     Inr (scr\<lparr>win_calls := win_calls scr @ [Clear]\<rparr>,
          Some \<lparr>win_height = 15, win_width = 75, win_begin_y = 1, win_begin_x = 2,
                win_calls = Box #
                  AddStr 1 2 [Lit ''Speed: '', Val (dict_get (engine_speed d) (IntV 0)),
                              Lit '' km/h''] 1 #
                  AddStr 2 2 [Lit ''Gear: '', Val (dict_get (gear d) (IntV 0))] 1 #
                  cs @ [Refresh]\<rparr>,
          True)"
proof -
  obtain cs where "draw_panel (box (newwin 15 75 1 2)) d =
     Inr ((box (newwin 15 75 1 2))\<lparr>win_calls := win_calls (box (newwin 15 75 1 2)) @
       AddStr 1 2 [Lit ''Speed: '', Val (dict_get (engine_speed d) (IntV 0)), Lit '' km/h''] 1 #
       AddStr 2 2 [Lit ''Gear: '', Val (dict_get (gear d) (IntV 0))] 1 #
       cs @ [Refresh]\<rparr>)"
    using draw_panel_ok [OF assms(1)] by blast
  then have "draw_telemetry_box scr d =
     Inr (scr\<lparr>win_calls := win_calls scr @ [Clear]\<rparr>,
          Some \<lparr>win_height = 15, win_width = 75, win_begin_y = 1, win_begin_x = 2,
                win_calls = Box #
                  AddStr 1 2 [Lit ''Speed: '', Val (dict_get (engine_speed d) (IntV 0)),
                              Lit '' km/h''] 1 #
                  AddStr 2 2 [Lit ''Gear: '', Val (dict_get (gear d) (IntV 0))] 1 #
                  cs @ [Refresh]\<rparr>,
          True)"
    using assms(2,3) by (simp add: draw_telemetry_box_def Let_def clear_def box_def newwin_def)
  then show ?thesis by blast
qed

section \<open>One packet at a time\<close>

text \<open>
  What \<open>handle_packet\<close> does for each kind of packet, and the two invariants of the loop
  over the packets that the claims need.
\<close>

lemma build_data_fields:
  "engine_speed (build_data s idx car) = Some (m_speed car)"
  "engine_rpm (build_data s idx car) = Some (m_engineRPM car)"
  "gear (build_data s idx car) = Some (m_gear car)"
  "max_rpm (build_data s idx car) = Some 15000"
  "tire_temperatures (build_data s idx car) = Some (m_tyresSurfaceTemperature car)"
  "throttle (build_data s idx car) = Some (m_throttle car)"
  "brake (build_data s idx car) = Some (m_brake car)"
  "g_force (build_data s idx car) = map_option m_gForceLateral (motion_data s idx)"
  "tire_wear (build_data s idx car) = map_option m_tyresDamage (status_data s idx)"
  "fuel (build_data s idx car) =
     Some (case car_setup_data s idx of
             None \<Rightarrow> dict_get (fuel (data s)) (IntV 0)
           | Some cs \<Rightarrow> m_fuelLoad cs)"
  by (simp_all add: build_data_def Let_def split: option.splits)

lemma handle_packet_telemetry:
  assumes "idx < length cars"
  shows "handle_packet s (6, PacketCarTelemetryData idx cars) =
     (case draw_telemetry_box (stdscr s) (build_data s idx (cars ! idx)) of
        Inl e \<Rightarrow> Inl e
      | Inr (scr, panel, ok) \<Rightarrow>
          Inr (s\<lparr>data := build_data s idx (cars ! idx), player_car_index := Some idx,
                 stdscr := scr,
                 panels := (case panel of None \<Rightarrow> panels s | Some p \<Rightarrow> panels s @ [p])\<rparr>, ok))"
  using assms
  by (auto simp: handle_packet_def Let_def py_index_def split: sum.splits option.splits)

lemma handle_packet_telemetry_Inr:
  assumes "handle_packet s (6, pkt) = Inr (s1, ok)"
  shows "\<exists>cars. pkt = PacketCarTelemetryData (m_playerCarIndex pkt) cars \<and>
           m_playerCarIndex pkt < length cars \<and>
           data s1 = build_data s (m_playerCarIndex pkt) (cars ! m_playerCarIndex pkt) \<and>
           player_car_index s1 = Some (m_playerCarIndex pkt) \<and>
           motion_data s1 = motion_data s \<and> status_data s1 = status_data s \<and>
           car_setup_data s1 = car_setup_data s"
  using assms
  by (cases pkt)
     (auto simp: handle_packet_def Let_def py_index_def split: sum.splits if_splits prod.splits)

lemma handle_packet_other:
  assumes "packet_id \<noteq> 6" "handle_packet s (packet_id, pkt) = Inr (s1, ok)"
  shows "ok \<and> data s1 = data s \<and> stdscr s1 = stdscr s \<and> panels s1 = panels s \<and>
         player_car_index s1 = player_car_index s \<and>
         (packet_id \<noteq> 0 \<longrightarrow> motion_data s1 = motion_data s) \<and>
         (packet_id \<noteq> 7 \<longrightarrow> status_data s1 = status_data s) \<and>
         (packet_id \<noteq> 5 \<longrightarrow> car_setup_data s1 = car_setup_data s)"
  using assms
  by (auto simp: handle_packet_def Let_def split: sum.splits if_splits option.splits)

lemma handle_packet_unrecognised:
  assumes "packet_id \<noteq> 0" "packet_id \<noteq> 5" "packet_id \<noteq> 6" "packet_id \<noteq> 7"
  shows "handle_packet s (packet_id, pkt) = Inr (s, True)"
  using assms by (simp add: handle_packet_def)

lemma handle_packet_untracked:
  assumes "player_car_index s = None" "packet_id \<noteq> 6"
  shows "handle_packet s (packet_id, pkt) = Inr (s, True)"
  using assms by (simp add: handle_packet_def)

lemma handle_packet_motion:
  assumes "player_car_index s = Some i" "i < length cars"
  shows "handle_packet s (0, PacketMotionData h cars) =
     Inr (s\<lparr>motion_data := (motion_data s)(i \<mapsto> cars ! i)\<rparr>, True)"
  using assms by (simp add: handle_packet_def py_index_def)

lemma handle_packet_status:
  assumes "player_car_index s = Some i" "i < length cars"
  shows "handle_packet s (7, PacketCarStatusData h cars) =
     Inr (s\<lparr>status_data := (status_data s)(i \<mapsto> cars ! i)\<rparr>, True)"
  using assms by (simp add: handle_packet_def py_index_def)

lemma handle_packet_setup:
  assumes "player_car_index s = Some i" "i < length cars"
  shows "handle_packet s (5, PacketCarSetupData h cars) =
     Inr (s\<lparr>car_setup_data := (car_setup_data s)(i \<mapsto> cars ! i)\<rparr>, True)"
  using assms by (simp add: handle_packet_def py_index_def)

lemma telemetry_step_small:
  assumes "idx < length cars" "win_width (stdscr s) < 75 \<or> win_height (stdscr s) < 15"
    "fits (stdscr s) 0 0 too_small_notice"
  shows "handle_packet s (6, PacketCarTelemetryData idx cars) =
     Inr (s\<lparr>data := build_data s idx (cars ! idx), player_car_index := Some idx,
            stdscr := (stdscr s)\<lparr>win_calls := win_calls (stdscr s) @
              [Clear, AddStr 0 0 [Lit too_small_notice] 1, Refresh]\<rparr>\<rparr>, False)"
  by (simp add: handle_packet_telemetry [OF assms(1)] draw_telemetry_box_small [OF assms(2,3)])

lemma telemetry_step_tiny:
  assumes "idx < length cars" "win_width (stdscr s) < 75 \<or> win_height (stdscr s) < 15"
    "\<not> fits (stdscr s) 0 0 too_small_notice"
  shows "handle_packet s (6, PacketCarTelemetryData idx cars) = Inl CursesError"
  by (simp add: handle_packet_telemetry [OF assms(1)] draw_telemetry_box_tiny [OF assms(2,3)])

lemma telemetry_step_big:
  assumes "idx < length cars" "well_formed (build_data s idx (cars ! idx))"
    "75 \<le> win_width (stdscr s)" "15 \<le> win_height (stdscr s)"
  shows "\<exists>panel. handle_packet s (6, PacketCarTelemetryData idx cars) =
     Inr (s\<lparr>data := build_data s idx (cars ! idx), player_car_index := Some idx,
            stdscr := (stdscr s)\<lparr>win_calls := win_calls (stdscr s) @ [Clear]\<rparr>,
            panels := panels s @ [panel]\<rparr>, True)"
proof -
  obtain cs where "draw_telemetry_box (stdscr s) (build_data s idx (cars ! idx)) =
     Inr ((stdscr s)\<lparr>win_calls := win_calls (stdscr s) @ [Clear]\<rparr>,
          Some \<lparr>win_height = 15, win_width = 75, win_begin_y = 1, win_begin_x = 2,
                win_calls = Box #
                  AddStr 1 2 [Lit ''Speed: '',
                    Val (dict_get (engine_speed (build_data s idx (cars ! idx))) (IntV 0)),
                    Lit '' km/h''] 1 #
                  AddStr 2 2 [Lit ''Gear: '',
                    Val (dict_get (gear (build_data s idx (cars ! idx))) (IntV 0))] 1 #
                  cs @ [Refresh]\<rparr>,
          True)"
    using draw_telemetry_box_ok [OF assms(2,3,4)] by blast
  then have "handle_packet s (6, PacketCarTelemetryData idx cars) =
     Inr (s\<lparr>data := build_data s idx (cars ! idx), player_car_index := Some idx,
            stdscr := (stdscr s)\<lparr>win_calls := win_calls (stdscr s) @ [Clear]\<rparr>,
            panels := panels s @
              [\<lparr>win_height = 15, win_width = 75, win_begin_y = 1, win_begin_x = 2,
                win_calls = Box #
                  AddStr 1 2 [Lit ''Speed: '',
                    Val (dict_get (engine_speed (build_data s idx (cars ! idx))) (IntV 0)),
                    Lit '' km/h''] 1 #
                  AddStr 2 2 [Lit ''Gear: '',
                    Val (dict_get (gear (build_data s idx (cars ! idx))) (IntV 0))] 1 #
                  cs @ [Refresh]\<rparr>]\<rparr>, True)"
    by (simp add: handle_packet_telemetry [OF assms(1)])
  then show ?thesis by blast
qed

lemma telemetry_step_total:
  assumes "idx < length cars" "well_formed (build_data s idx (cars ! idx))"
    "\<not> ((win_width (stdscr s) < 75 \<or> win_height (stdscr s) < 15) \<and>
        \<not> fits (stdscr s) 0 0 too_small_notice)"
  shows "\<exists>s1 ok. handle_packet s (6, PacketCarTelemetryData idx cars) = Inr (s1, ok) \<and>
           data s1 = build_data s idx (cars ! idx) \<and> player_car_index s1 = Some idx \<and>
           motion_data s1 = motion_data s \<and> status_data s1 = status_data s \<and>
           car_setup_data s1 = car_setup_data s"
proof (cases "win_width (stdscr s) < 75 \<or> win_height (stdscr s) < 15")
  case True
  with assms(3) have room: "fits (stdscr s) 0 0 too_small_notice" by blast
  show ?thesis
    unfolding telemetry_step_small [OF assms(1) True room] by auto
next
  case False
  then have "75 \<le> win_width (stdscr s)" "15 \<le> win_height (stdscr s)" by simp_all
  from telemetry_step_big [OF assms(1,2) this] obtain panel where
    "handle_packet s (6, PacketCarTelemetryData idx cars) =
     Inr (s\<lparr>data := build_data s idx (cars ! idx), player_car_index := Some idx,
            stdscr := (stdscr s)\<lparr>win_calls := win_calls (stdscr s) @ [Clear]\<rparr>,
            panels := panels s @ [panel]\<rparr>, True)" by blast
  then show ?thesis by auto
qed

lemma for_packets_untracked:
  assumes "player_car_index s = None" "\<forall>ev\<in>set evs. fst ev \<noteq> 6"
  shows "for_packets s evs = Inr (s, True)"
  using assms
proof (induction evs)
  case Nil
  then show ?case by simp
next
  case (Cons ev evs)
  obtain packet_id pkt where ev: "ev = (packet_id, pkt)" by (cases ev)
  with Cons.prems have "handle_packet s ev = Inr (s, True)"
    by (simp add: handle_packet_untracked)
  with Cons show ?case by simp
qed

lemma for_packets_append:
  "for_packets s (evs @ evs') =
     (case for_packets s evs of
        Inl e \<Rightarrow> Inl e
      | Inr (s1, ok) \<Rightarrow> if ok then for_packets s1 evs' else Inr (s1, False))"
  by (induction evs arbitrary: s) (auto split: sum.splits)

lemma for_packets_single:
  "for_packets s [ev] = handle_packet s ev"
  by (auto split: sum.splits)

lemma telemetry_step_on_screen:
  assumes "idx < length cars" "well_formed (build_data s idx (cars ! idx))"
    "75 \<le> win_width (stdscr s)" "15 \<le> win_height (stdscr s)"
  shows "\<exists>s1. handle_packet s (6, PacketCarTelemetryData idx cars) = Inr (s1, True) \<and>
           data s1 = build_data s idx (cars ! idx) \<and> player_car_index s1 = Some idx \<and>
           motion_data s1 = motion_data s \<and> status_data s1 = status_data s \<and>
           car_setup_data s1 = car_setup_data s \<and>
           win_width (stdscr s1) = win_width (stdscr s) \<and>
           win_height (stdscr s1) = win_height (stdscr s)"
proof -
  from telemetry_step_big [OF assms] obtain panel where
    "handle_packet s (6, PacketCarTelemetryData idx cars) =
     Inr (s\<lparr>data := build_data s idx (cars ! idx), player_car_index := Some idx,
            stdscr := (stdscr s)\<lparr>win_calls := win_calls (stdscr s) @ [Clear]\<rparr>,
            panels := panels s @ [panel]\<rparr>, True)" by blast
  then show ?thesis by simp
qed

lemma first_telemetry_after_untracked:
  assumes "\<forall>ev\<in>set evs. fst ev \<noteq> 6" "idx < length cars"
    "well_formed (build_data (initial_state scr) idx (cars ! idx))"
    "\<not> ((win_width scr < 75 \<or> win_height scr < 15) \<and> \<not> fits scr 0 0 too_small_notice)"
  shows "\<exists>s' ok. for_packets (initial_state scr) (evs @ [(6, PacketCarTelemetryData idx cars)]) =
           Inr (s', ok) \<and>
         data s' = build_data (initial_state scr) idx (cars ! idx) \<and>
         player_car_index s' = Some idx \<and> motion_data s' = Map.empty"
proof -
  have idle: "for_packets (initial_state scr) evs = Inr (initial_state scr, True)"
    using assms(1) by (intro for_packets_untracked) (simp_all add: initial_state_def)
  obtain s' ok where
    "handle_packet (initial_state scr) (6, PacketCarTelemetryData idx cars) = Inr (s', ok)"
    "data s' = build_data (initial_state scr) idx (cars ! idx)"
    "player_car_index s' = Some idx" "motion_data s' = motion_data (initial_state scr)"
    using telemetry_step_total [OF assms(2,3)] assms(4) by (auto simp: initial_state_def)
  moreover have "motion_data (initial_state scr) = Map.empty"
    by (simp add: initial_state_def)
  ultimately show ?thesis
    by (auto simp add: for_packets_append idle for_packets_single)
qed

lemma first_telemetry_on_tiny_terminal:
  assumes "\<forall>ev\<in>set evs. fst ev \<noteq> 6" "idx < length cars"
    "win_width scr < 75 \<or> win_height scr < 15" "\<not> fits scr 0 0 too_small_notice"
  shows "for_packets (initial_state scr) (evs @ [(6, PacketCarTelemetryData idx cars)]) =
           Inl CursesError"
proof -
  have idle: "for_packets (initial_state scr) evs = Inr (initial_state scr, True)"
    using assms(1) by (intro for_packets_untracked) (simp_all add: initial_state_def)
  have "handle_packet (initial_state scr) (6, PacketCarTelemetryData idx cars) = Inl CursesError"
    using assms(2,3,4) by (intro telemetry_step_tiny) (simp_all add: initial_state_def)
  then show ?thesis
    by (simp add: for_packets_append idle for_packets_single)
qed

lemma sticky_fuel_run:
  assumes "\<forall>ev\<in>set es. fst ev \<noteq> 5" "for_packets s es = Inr (s', c)"
    "(\<exists>ev\<in>set es. fst ev = 6) \<or>
     (\<exists>j. player_car_index s = Some j \<and>
        (\<forall>cs. car_setup_data s j = Some cs \<longrightarrow> fuel (data s) = Some (m_fuelLoad cs)))"
  shows "car_setup_data s' = car_setup_data s \<and>
     (\<exists>j. player_car_index s' = Some j \<and>
        (\<forall>cs. car_setup_data s j = Some cs \<longrightarrow> fuel (data s') = Some (m_fuelLoad cs)))"
  using assms
proof (induction es arbitrary: s)
  case Nil
  then show ?case by simp
next
  case (Cons ev es)
  obtain packet_id pkt where ev: "ev = (packet_id, pkt)" by (cases ev)
  from Cons.prems(2) obtain s1 ok where step: "handle_packet s ev = Inr (s1, ok)"
    and rest: "if ok then for_packets s1 es = Inr (s', c) else s' = s1"
    by (auto split: sum.splits if_splits)
  have tail: "\<forall>ev\<in>set es. fst ev \<noteq> 5"
    using Cons.prems(1) by simp
  show ?case
  proof (cases "packet_id = 6")
    case True
    from step ev True obtain cars where
      d: "data s1 = build_data s (m_playerCarIndex pkt) (cars ! m_playerCarIndex pkt)"
      and tracked: "player_car_index s1 = Some (m_playerCarIndex pkt)"
      and cache: "car_setup_data s1 = car_setup_data s"
      using handle_packet_telemetry_Inr [of s pkt s1 ok] by auto
    have inv: "\<exists>j. player_car_index s1 = Some j \<and>
        (\<forall>cs. car_setup_data s1 j = Some cs \<longrightarrow> fuel (data s1) = Some (m_fuelLoad cs))"
      using d tracked cache by (simp add: build_data_fields)
    show ?thesis
    proof (cases ok)
      case True
      with rest have "for_packets s1 es = Inr (s', c)" by simp
      from Cons.IH [OF tail this] inv show ?thesis by (simp add: cache)
    next
      case False
      with rest have "s' = s1" by simp
      with inv cache show ?thesis by simp
    qed
  next
    case False
    from Cons.prems(1) ev have "packet_id \<noteq> 5" by simp
    with handle_packet_other [OF False step [unfolded ev]]
    have ok: ok and d: "data s1 = data s" and tracked: "player_car_index s1 = player_car_index s"
      and cache: "car_setup_data s1 = car_setup_data s"
      by simp_all
    from ok rest have run: "for_packets s1 es = Inr (s', c)" by simp
    from Cons.prems(3) ev False
    have "(\<exists>ev\<in>set es. fst ev = 6) \<or>
       (\<exists>j. player_car_index s1 = Some j \<and>
          (\<forall>cs. car_setup_data s1 j = Some cs \<longrightarrow> fuel (data s1) = Some (m_fuelLoad cs)))"
      by (simp add: d tracked cache)
    from Cons.IH [OF tail run this] show ?thesis by (simp add: cache)
  qed
qed

lemma last_telemetry_snapshot:
  assumes "for_packets s (es @ [(6, pkt)]) = Inr (s', True)"
  shows "\<exists>s1 cars. for_packets s es = Inr (s1, True) \<and>
     pkt = PacketCarTelemetryData (m_playerCarIndex pkt) cars \<and>
     player_car_index s' = Some (m_playerCarIndex pkt) \<and>
     data s' = build_data s1 (m_playerCarIndex pkt) (cars ! m_playerCarIndex pkt)"
proof -
  from assms obtain s1 where before: "for_packets s es = Inr (s1, True)"
    and last: "handle_packet s1 (6, pkt) = Inr (s', True)"
    by (auto simp: for_packets_append for_packets_single split: sum.splits if_splits)
  from handle_packet_telemetry_Inr [OF last] before show ?thesis by blast
qed

text \<open>
  A car telemetry packet on a terminal that is too small for the box. When the terminal
  has more than 48 cells, the notice is written, no panel is created, and the packet ends
  the loop over the packets and the outer loop by the return of line 217, whatever
  packets and rounds follow. When it has 48 cells or fewer, the write of the notice raises
  and the loops are left by the exception.
\<close>

lemma small_surface_behaviour:
  assumes "win_width (stdscr s) < 75 \<or> win_height (stdscr s) < 15" "idx < length cars"
  shows "(0 < win_height (stdscr s) \<and> 0 < win_width (stdscr s) \<and>
      48 < win_height (stdscr s) * win_width (stdscr s) \<longrightarrow>
      draw_telemetry_box (stdscr s) d =
        Inr ((stdscr s)\<lparr>win_calls := win_calls (stdscr s) @
               [Clear,
                AddStr 0 0 [Lit ''Terminal too small. Please resize and try again.''] 1,
                Refresh]\<rparr>, None, False) \<and>
      (\<exists>s'. handle_packet s (6, PacketCarTelemetryData idx cars) = Inr (s', False) \<and>
         panels s' = panels s \<and>
         win_calls (stdscr s') =
           win_calls (stdscr s) @
             [Clear,
              AddStr 0 0 [Lit ''Terminal too small. Please resize and try again.''] 1,
              Refresh] \<and>
         for_packets s ((6, PacketCarTelemetryData idx cars) # rest) = Inr (s', False) \<and>
         while_loop s (((6, PacketCarTelemetryData idx cars) # rest, key) # ticks) =
           Inr (s', Returned))) \<and>
   (\<not> (0 < win_height (stdscr s) \<and> 0 < win_width (stdscr s) \<and>
        48 < win_height (stdscr s) * win_width (stdscr s)) \<longrightarrow>
      draw_telemetry_box (stdscr s) d = Inl CursesError \<and>
      handle_packet s (6, PacketCarTelemetryData idx cars) = Inl CursesError \<and>
      for_packets s ((6, PacketCarTelemetryData idx cars) # rest) = Inl CursesError \<and>
      while_loop s (((6, PacketCarTelemetryData idx cars) # rest, key) # ticks) =
        Inl CursesError)"
proof (intro conjI impI)
  assume "0 < win_height (stdscr s) \<and> 0 < win_width (stdscr s) \<and>
      48 < win_height (stdscr s) * win_width (stdscr s)"
  then have room: "fits (stdscr s) 0 0 too_small_notice"
    by (simp add: fits_notice)
  note step = telemetry_step_small [OF assms(2,1) room, unfolded too_small_notice_def]
  show "draw_telemetry_box (stdscr s) d =
      Inr ((stdscr s)\<lparr>win_calls := win_calls (stdscr s) @
             [Clear,
              AddStr 0 0 [Lit ''Terminal too small. Please resize and try again.''] 1,
              Refresh]\<rparr>, None, False)"
    using draw_telemetry_box_small [OF assms(1) room] unfolding too_small_notice_def .
  show "\<exists>s'. handle_packet s (6, PacketCarTelemetryData idx cars) = Inr (s', False) \<and>
         panels s' = panels s \<and>
         win_calls (stdscr s') =
           win_calls (stdscr s) @
             [Clear,
              AddStr 0 0 [Lit ''Terminal too small. Please resize and try again.''] 1,
              Refresh] \<and>
         for_packets s ((6, PacketCarTelemetryData idx cars) # rest) = Inr (s', False) \<and>
         while_loop s (((6, PacketCarTelemetryData idx cars) # rest, key) # ticks) =
           Inr (s', Returned)"
    by (intro exI conjI) (simp_all add: step)
next
  assume "\<not> (0 < win_height (stdscr s) \<and> 0 < win_width (stdscr s) \<and>
        48 < win_height (stdscr s) * win_width (stdscr s))"
  then have tight: "\<not> fits (stdscr s) 0 0 too_small_notice"
    by (simp add: fits_notice)
  note step = telemetry_step_tiny [OF assms(2,1) tight]
  show "draw_telemetry_box (stdscr s) d = Inl CursesError"
    using assms(1) tight by (rule draw_telemetry_box_tiny)
  show "handle_packet s (6, PacketCarTelemetryData idx cars) = Inl CursesError"
    by (rule step)
  show "for_packets s ((6, PacketCarTelemetryData idx cars) # rest) = Inl CursesError"
    by (simp add: step)
  show "while_loop s (((6, PacketCarTelemetryData idx cars) # rest, key) # ticks) =
        Inl CursesError"
    by (simp add: step)
qed

lemmas example_defs = example_screen_def example_car_def example_data_def example_state_def

lemmas well_formed_eval =
  well_formed_def build_data_fields dict_get_def gauge_ok_def fuel_ok_def

section \<open>The claims\<close>

subsection \<open>C1: a motion packet before the first telemetry packet\<close>

text \<open>
  Claim C1, as amended. While no car telemetry packet has arrived, the index of the
  tracked car is not set: every packet of another kind, a motion packet among them, leaves
  the state as it is, so that nothing is drawn and nothing is stored. The first car
  telemetry packet afterwards builds a dictionary without a g-force entry (the box then
  shows the default 0) and the motion store is still empty: the g-force of the earlier
  motion packet is lost, it is not reflected in the first snapshot. The dictionary is
  built before the box is drawn; only on a terminal too small for the box and of 48 cells
  or fewer the drawing of that first snapshot raises \<^verbatim>\<open>curses.error\<close> and ends the
  program, on every other terminal the run goes on with the state described.
\<close>

theorem motion_before_first_telemetry:
  assumes "\<forall>ev\<in>set evs. fst ev \<noteq> 6" "idx < length cars"
    "well_formed (build_data (initial_state scr) idx (cars ! idx))"
  shows "for_packets (initial_state scr) evs = Inr (initial_state scr, True) \<and>
     g_force (build_data (initial_state scr) idx (cars ! idx)) = None \<and>
     (if (win_width scr < 75 \<or> win_height scr < 15) \<and> \<not> fits scr 0 0 too_small_notice
      then for_packets (initial_state scr) (evs @ [(6, PacketCarTelemetryData idx cars)]) =
             Inl CursesError
      else (\<exists>s' ok.
         for_packets (initial_state scr) (evs @ [(6, PacketCarTelemetryData idx cars)]) =
           Inr (s', ok) \<and>
         data s' = build_data (initial_state scr) idx (cars ! idx) \<and>
         g_force (data s') = None \<and> motion_data s' = Map.empty))"
proof -
  have idle: "for_packets (initial_state scr) evs = Inr (initial_state scr, True)"
    using assms(1) by (intro for_packets_untracked) (simp_all add: initial_state_def)
  have none: "g_force (build_data (initial_state scr) idx (cars ! idx)) = None"
    by (simp add: build_data_fields initial_state_def)
  show ?thesis
  proof (cases "(win_width scr < 75 \<or> win_height scr < 15) \<and> \<not> fits scr 0 0 too_small_notice")
    case True
    then have "for_packets (initial_state scr) (evs @ [(6, PacketCarTelemetryData idx cars)]) =
        Inl CursesError"
      using first_telemetry_on_tiny_terminal [OF assms(1,2)] by blast
    with idle none True show ?thesis by simp
  next
    case False
    obtain s' ok where
      "for_packets (initial_state scr) (evs @ [(6, PacketCarTelemetryData idx cars)]) =
         Inr (s', ok)"
      "data s' = build_data (initial_state scr) idx (cars ! idx)" "motion_data s' = Map.empty"
      using first_telemetry_after_untracked [OF assms False] by blast
    with idle none False show ?thesis by auto
  qed
qed

text \<open>
  The theorem at a motion packet with the lateral g-force 1.5, on a terminal of 80 by 24.
\<close>

theorem motion_before_first_telemetry_witness:
  "list_all (\<lambda>ev. fst ev \<noteq> 6)
     [(0::int, PacketMotionData 0 [\<lparr>m_gForceLateral = FloatV (Fin (3 / 2))\<rparr>])] \<and>
   (0::nat) < length [example_car] \<and>
   well_formed (build_data (initial_state example_screen) 0 ([example_car] ! 0)) \<and>
   75 \<le> win_width example_screen \<and> 15 \<le> win_height example_screen \<and>
   for_packets (initial_state example_screen)
     [(0, PacketMotionData 0 [\<lparr>m_gForceLateral = FloatV (Fin (3 / 2))\<rparr>])] =
     Inr (initial_state example_screen, True) \<and>
   map_sum id (\<lambda>r. (g_force (data (fst r)), motion_data (fst r) 0))
     (for_packets (initial_state example_screen)
        [(0, PacketMotionData 0 [\<lparr>m_gForceLateral = FloatV (Fin (3 / 2))\<rparr>]),
         (6, PacketCarTelemetryData 0 [example_car])]) = Inr (None, None)"
proof -
  have h: "\<forall>ev\<in>set [(0::int, PacketMotionData 0 [\<lparr>m_gForceLateral = FloatV (Fin (3 / 2))\<rparr>])].
      fst ev \<noteq> 6"
    "(0::nat) < length [example_car]"
    "well_formed (build_data (initial_state example_screen) 0 ([example_car] ! 0))"
    by (simp_all add: well_formed_eval example_defs initial_state_def empty_data_def)
  have big: "75 \<le> win_width example_screen" "15 \<le> win_height example_screen"
    by (simp_all add: example_screen_def newwin_def)
  then have large: "\<not> ((win_width example_screen < 75 \<or> win_height example_screen < 15) \<and>
      \<not> fits example_screen 0 0 too_small_notice)"
    by simp
  note first = motion_before_first_telemetry [OF h]
  from first have idle: "for_packets (initial_state example_screen)
     [(0, PacketMotionData 0 [\<lparr>m_gForceLateral = FloatV (Fin (3 / 2))\<rparr>])] =
     Inr (initial_state example_screen, True)"
    by blast
  from first large obtain s' ok where
    "for_packets (initial_state example_screen)
       ([(0, PacketMotionData 0 [\<lparr>m_gForceLateral = FloatV (Fin (3 / 2))\<rparr>])] @
        [(6, PacketCarTelemetryData 0 [example_car])]) = Inr (s', ok)"
    "g_force (data s') = None" "motion_data s' = Map.empty"
    by (simp only: if_False) blast
  then have "map_sum id (\<lambda>r. (g_force (data (fst r)), motion_data (fst r) 0))
     (for_packets (initial_state example_screen)
        [(0, PacketMotionData 0 [\<lparr>m_gForceLateral = FloatV (Fin (3 / 2))\<rparr>]),
         (6, PacketCarTelemetryData 0 [example_car])]) = Inr (None, None)"
    by simp
  with h(2,3) big idle show ?thesis by simp
qed

text \<open>
  The claim as stated fails: after that motion packet and a car telemetry packet for the
  same car, the dictionary has no g-force entry, where the claim expects 1.5.
\<close>

theorem motion_before_first_telemetry_counterexample:
  "map_sum id (\<lambda>r. (g_force (data (fst r)), dict_get (g_force (data (fst r))) (IntV 0)))
     (for_packets (initial_state example_screen)
        [(0, PacketMotionData 0 [\<lparr>m_gForceLateral = FloatV (Fin (3 / 2))\<rparr>]),
         (6, PacketCarTelemetryData 0 [example_car])]) = Inr (None, IntV 0)"
proof -
  have h: "\<forall>ev\<in>set [(0::int, PacketMotionData 0 [\<lparr>m_gForceLateral = FloatV (Fin (3 / 2))\<rparr>])].
      fst ev \<noteq> 6"
    "(0::nat) < length [example_car]"
    "well_formed (build_data (initial_state example_screen) 0 ([example_car] ! 0))"
    by (simp_all add: well_formed_eval example_defs initial_state_def empty_data_def)
  have "\<not> ((win_width example_screen < 75 \<or> win_height example_screen < 15) \<and>
      \<not> fits example_screen 0 0 too_small_notice)"
    by (simp add: example_screen_def newwin_def)
  from first_telemetry_after_untracked [OF h this] obtain s' ok where
    "for_packets (initial_state example_screen)
       ([(0, PacketMotionData 0 [\<lparr>m_gForceLateral = FloatV (Fin (3 / 2))\<rparr>])] @
        [(6, PacketCarTelemetryData 0 [example_car])]) = Inr (s', ok)"
    "data s' = build_data (initial_state example_screen) 0 ([example_car] ! 0)"
    by blast
  then show ?thesis by (simp add: build_data_fields initial_state_def dict_get_def)
qed

subsection \<open>C2: the fuel value is kept\<close>

text \<open>
  Claim C2, as amended. A setup packet stores the fuel load of the tracked car \<open>i\<close>.
  After it comes any sequence of packets without a setup packet (car telemetry packets
  that name any car, motion and status packets, packets of an unrecognised kind) and then
  a car telemetry packet. The run ends in a state \<open>s'\<close> whose dictionary is the snapshot
  built last, for the car \<open>j\<close> that the state tracks; when the run has handled all
  packets (\<open>c\<close> is true) this is the snapshot built from the last packet, for the car
  that it names, otherwise the run has returned at an earlier car telemetry packet. If \<open>j\<close> is the car \<open>i\<close>, the snapshot has the
  fuel load that the setup packet stored. If \<open>j\<close> is another car that had an entry in the
  setup store before, the snapshot has the fuel load of that older entry. The sequence in
  between is arbitrary, hence the statement holds of every snapshot built on the way.
\<close>

theorem fuel_is_sticky:
  assumes "player_car_index s = Some i" "i < length setups"
    "\<forall>ev\<in>set es. fst ev \<noteq> 5"
    "for_packets s ((5, PacketCarSetupData h setups) # es @ [(6, pkt)]) = Inr (s', c)"
  shows "\<exists>j. player_car_index s' = Some j \<and>
     (c \<longrightarrow> j = m_playerCarIndex pkt \<and>
        (\<exists>s1 cars. for_packets s ((5, PacketCarSetupData h setups) # es) = Inr (s1, True) \<and>
           pkt = PacketCarTelemetryData j cars \<and> data s' = build_data s1 j (cars ! j))) \<and>
     (j = i \<longrightarrow> fuel (data s') = Some (m_fuelLoad (setups ! i))) \<and>
     (\<forall>cs. j \<noteq> i \<and> car_setup_data s j = Some cs \<longrightarrow>
        fuel (data s') = Some (m_fuelLoad cs))"
proof -
  let ?s1 = "s\<lparr>car_setup_data := (car_setup_data s)(i \<mapsto> setups ! i)\<rparr>"
  have first: "handle_packet s (5, PacketCarSetupData h setups) = Inr (?s1, True)"
    using assms(1,2) by (rule handle_packet_setup)
  with assms(4) have run: "for_packets ?s1 (es @ [(6, pkt)]) = Inr (s', c)" by simp
  have free: "\<forall>ev\<in>set (es @ [(6, pkt)]). fst ev \<noteq> 5"
    using assms(3) by simp
  have "(\<exists>ev\<in>set (es @ [(6, pkt)]). fst ev = 6) \<or>
     (\<exists>j. player_car_index ?s1 = Some j \<and>
        (\<forall>cs. car_setup_data ?s1 j = Some cs \<longrightarrow> fuel (data ?s1) = Some (m_fuelLoad cs)))"
    by simp
  from sticky_fuel_run [OF free run this] obtain j where
    j: "player_car_index s' = Some j"
    and f: "\<forall>cs. car_setup_data ?s1 j = Some cs \<longrightarrow> fuel (data s') = Some (m_fuelLoad cs)"
    by blast
  have "c \<longrightarrow> j = m_playerCarIndex pkt \<and>
      (\<exists>s1 cars. for_packets s ((5, PacketCarSetupData h setups) # es) = Inr (s1, True) \<and>
         pkt = PacketCarTelemetryData j cars \<and> data s' = build_data s1 j (cars ! j))"
  proof
    assume c
    with run have "for_packets ?s1 (es @ [(6, pkt)]) = Inr (s', True)" by simp
    from last_telemetry_snapshot [OF this] obtain s1 cars where
      "for_packets ?s1 es = Inr (s1, True)"
      "pkt = PacketCarTelemetryData (m_playerCarIndex pkt) cars"
      "player_car_index s' = Some (m_playerCarIndex pkt)"
      "data s' = build_data s1 (m_playerCarIndex pkt) (cars ! m_playerCarIndex pkt)"
      by blast
    with j first show "j = m_playerCarIndex pkt \<and>
      (\<exists>s1 cars. for_packets s ((5, PacketCarSetupData h setups) # es) = Inr (s1, True) \<and>
         pkt = PacketCarTelemetryData j cars \<and> data s' = build_data s1 j (cars ! j))"
      by auto
  qed
  moreover have "j = i \<longrightarrow> fuel (data s') = Some (m_fuelLoad (setups ! i))"
    using f by simp
  moreover have "\<forall>cs. j \<noteq> i \<and> car_setup_data s j = Some cs \<longrightarrow>
      fuel (data s') = Some (m_fuelLoad cs)"
    using f by simp
  ultimately show ?thesis using j by blast
qed

text \<open>
  The theorem on two runs on a terminal of 80 by 24. Car 2 is tracked, the dictionary has
  the fuel 42 and the setup store has the entry 42 for car 0 only; the setup packet stores
  the fuel load 10 for car 2. In the first run a car telemetry packet for car 0 and a
  motion packet follow, and the snapshot of the last packet, for car 2, has the fuel 10.
  In the second run a car telemetry packet for car 2 and a motion packet follow, and the
  snapshot of the last packet, for car 0, has the fuel 42 of the older entry.
\<close>

theorem fuel_is_sticky_witness:
  "player_car_index (example_state\<lparr>player_car_index := Some 2\<rparr>) = Some 2 \<and>
   (2::nat) < length [\<lparr>m_fuelLoad = FloatV (Fin 5)\<rparr>, \<lparr>m_fuelLoad = FloatV (Fin 6)\<rparr>,
                       \<lparr>m_fuelLoad = FloatV (Fin 10)\<rparr>, \<lparr>m_fuelLoad = FloatV (Fin 20)\<rparr>] \<and>
   fuel (data (example_state\<lparr>player_car_index := Some 2\<rparr>)) = Some (FloatV (Fin 42)) \<and>
   car_setup_data (example_state\<lparr>player_car_index := Some 2\<rparr>) 2 = None \<and>
   car_setup_data (example_state\<lparr>player_car_index := Some 2\<rparr>) 0 =
     Some \<lparr>m_fuelLoad = FloatV (Fin 42)\<rparr> \<and>
   list_all (\<lambda>ev. fst ev \<noteq> 5)
     [(6::int, PacketCarTelemetryData 0 [example_car, example_car, example_car, example_car]),
      (0, PacketMotionData 0 [\<lparr>m_gForceLateral = FloatV (Fin (3 / 2))\<rparr>])] \<and>
   map_sum id (\<lambda>r. (player_car_index (fst r), fuel (data (fst r)), snd r))
     (for_packets (example_state\<lparr>player_car_index := Some 2\<rparr>)
        [(5, PacketCarSetupData 2 [\<lparr>m_fuelLoad = FloatV (Fin 5)\<rparr>, \<lparr>m_fuelLoad = FloatV (Fin 6)\<rparr>,
               \<lparr>m_fuelLoad = FloatV (Fin 10)\<rparr>, \<lparr>m_fuelLoad = FloatV (Fin 20)\<rparr>]),
         (6, PacketCarTelemetryData 0 [example_car, example_car, example_car, example_car]),
         (0, PacketMotionData 0 [\<lparr>m_gForceLateral = FloatV (Fin (3 / 2))\<rparr>]),
         (6, PacketCarTelemetryData 2 [example_car, example_car, example_car, example_car])]) =
     Inr (Some 2, Some (FloatV (Fin 10)), True) \<and>
   list_all (\<lambda>ev. fst ev \<noteq> 5)
     [(6::int, PacketCarTelemetryData 2 [example_car, example_car, example_car, example_car]),
      (0, PacketMotionData 2 [\<lparr>m_gForceLateral = FloatV (Fin 0)\<rparr>, \<lparr>m_gForceLateral = FloatV (Fin 0)\<rparr>,
            \<lparr>m_gForceLateral = FloatV (Fin (3 / 2))\<rparr>])] \<and>
   map_sum id (\<lambda>r. (player_car_index (fst r), fuel (data (fst r)), snd r))
     (for_packets (example_state\<lparr>player_car_index := Some 2\<rparr>)
        [(5, PacketCarSetupData 2 [\<lparr>m_fuelLoad = FloatV (Fin 5)\<rparr>, \<lparr>m_fuelLoad = FloatV (Fin 6)\<rparr>,
               \<lparr>m_fuelLoad = FloatV (Fin 10)\<rparr>, \<lparr>m_fuelLoad = FloatV (Fin 20)\<rparr>]),
         (6, PacketCarTelemetryData 2 [example_car, example_car, example_car, example_car]),
         (0, PacketMotionData 2 [\<lparr>m_gForceLateral = FloatV (Fin 0)\<rparr>, \<lparr>m_gForceLateral = FloatV (Fin 0)\<rparr>,
               \<lparr>m_gForceLateral = FloatV (Fin (3 / 2))\<rparr>]),
         (6, PacketCarTelemetryData 0 [example_car, example_car, example_car, example_car])]) =
     Inr (Some 0, Some (FloatV (Fin 42)), True)"
proof -
  let ?cars = "[example_car, example_car, example_car, example_car]"
  let ?setups = "[\<lparr>m_fuelLoad = FloatV (Fin 5)\<rparr>, \<lparr>m_fuelLoad = FloatV (Fin 6)\<rparr>,
                  \<lparr>m_fuelLoad = FloatV (Fin 10)\<rparr>, \<lparr>m_fuelLoad = FloatV (Fin 20)\<rparr>]"
  let ?motionA = "[\<lparr>m_gForceLateral = FloatV (Fin (3 / 2))\<rparr>]"
  let ?motionB = "[\<lparr>m_gForceLateral = FloatV (Fin 0)\<rparr>, \<lparr>m_gForceLateral = FloatV (Fin 0)\<rparr>,
                   \<lparr>m_gForceLateral = FloatV (Fin (3 / 2))\<rparr>]"
  let ?esA = "[(6::int, PacketCarTelemetryData 0 ?cars), (0, PacketMotionData 0 ?motionA)]"
  let ?esB = "[(6::int, PacketCarTelemetryData 2 ?cars), (0, PacketMotionData 2 ?motionB)]"
  define s0 where "s0 = example_state\<lparr>player_car_index := Some 2\<rparr>"
  have s0: "player_car_index s0 = Some 2" "fuel (data s0) = Some (FloatV (Fin 42))"
    "car_setup_data s0 2 = None" "car_setup_data s0 0 = Some \<lparr>m_fuelLoad = FloatV (Fin 42)\<rparr>"
    "motion_data s0 = Map.empty" "status_data s0 = Map.empty"
    "win_width (stdscr s0) = 80" "win_height (stdscr s0) = 24"
    by (simp_all add: s0_def example_defs newwin_def)
  have car: "\<And>k. k < 4 \<Longrightarrow> ?cars ! k = example_car"
    by (simp add: nth_Cons split: nat.splits)
  have h2: "(2::nat) < length ?setups" by simp
  have hA: "\<forall>ev\<in>set ?esA. fst ev \<noteq> 5" and hB: "\<forall>ev\<in>set ?esB. fst ev \<noteq> 5" by simp_all
  define s1 where "s1 = s0\<lparr>car_setup_data := (car_setup_data s0)(2 \<mapsto> ?setups ! 2)\<rparr>"
  have e1: "handle_packet s0 (5, PacketCarSetupData 2 ?setups) = Inr (s1, True)"
    unfolding s1_def using s0(1) h2 by (rule handle_packet_setup)
  have s1: "player_car_index s1 = Some 2" "fuel (data s1) = Some (FloatV (Fin 42))"
    "motion_data s1 = Map.empty" "status_data s1 = Map.empty"
    "win_width (stdscr s1) = 80" "win_height (stdscr s1) = 24"
    by (simp_all add: s1_def s0)
  have "well_formed (build_data s1 0 (?cars ! 0))"
    "75 \<le> win_width (stdscr s1)" "15 \<le> win_height (stdscr s1)"
    by (simp_all add: s1 s1_def s0 car well_formed_eval example_car_def)
  from telemetry_step_on_screen [OF _ this] obtain a2 where
    a2: "handle_packet s1 (6, PacketCarTelemetryData 0 ?cars) = Inr (a2, True)"
    and a2s: "data a2 = build_data s1 0 (?cars ! 0)" "player_car_index a2 = Some 0"
      "motion_data a2 = motion_data s1" "status_data a2 = status_data s1"
      "car_setup_data a2 = car_setup_data s1"
      "win_width (stdscr a2) = win_width (stdscr s1)"
      "win_height (stdscr a2) = win_height (stdscr s1)"
    by auto
  define a3 where "a3 = a2\<lparr>motion_data := (motion_data a2)(0 \<mapsto> ?motionA ! 0)\<rparr>"
  have a3: "handle_packet a2 (0, PacketMotionData 0 ?motionA) = Inr (a3, True)"
    unfolding a3_def using a2s(2) by (intro handle_packet_motion) simp_all
  have "well_formed (build_data a3 2 (?cars ! 2))"
    "75 \<le> win_width (stdscr a3)" "15 \<le> win_height (stdscr a3)"
    by (simp_all add: a3_def a2s s1 s1_def s0 car well_formed_eval example_car_def)
  from telemetry_step_on_screen [OF _ this] obtain a4 where
    a4: "handle_packet a3 (6, PacketCarTelemetryData 2 ?cars) = Inr (a4, True)"
    by auto
  have runA: "for_packets s0 ((5, PacketCarSetupData 2 ?setups) # ?esA @
      [(6, PacketCarTelemetryData 2 ?cars)]) = Inr (a4, True)"
    by (simp add: e1 a2 a3 a4)
  from fuel_is_sticky [OF s0(1) h2 hA runA]
  have "player_car_index a4 = Some 2 \<and> fuel (data a4) = Some (FloatV (Fin 10))"
    by auto
  with runA have A: "map_sum id (\<lambda>r. (player_car_index (fst r), fuel (data (fst r)), snd r))
     (for_packets s0 ((5, PacketCarSetupData 2 ?setups) # ?esA @
        [(6, PacketCarTelemetryData 2 ?cars)])) = Inr (Some 2, Some (FloatV (Fin 10)), True)"
    by simp
  have "well_formed (build_data s1 2 (?cars ! 2))"
    "75 \<le> win_width (stdscr s1)" "15 \<le> win_height (stdscr s1)"
    by (simp_all add: s1 s1_def s0 car well_formed_eval example_car_def)
  from telemetry_step_on_screen [OF _ this] obtain b2 where
    b2: "handle_packet s1 (6, PacketCarTelemetryData 2 ?cars) = Inr (b2, True)"
    and b2s: "data b2 = build_data s1 2 (?cars ! 2)" "player_car_index b2 = Some 2"
      "motion_data b2 = motion_data s1" "status_data b2 = status_data s1"
      "car_setup_data b2 = car_setup_data s1"
      "win_width (stdscr b2) = win_width (stdscr s1)"
      "win_height (stdscr b2) = win_height (stdscr s1)"
    by auto
  define b3 where "b3 = b2\<lparr>motion_data := (motion_data b2)(2 \<mapsto> ?motionB ! 2)\<rparr>"
  have b3: "handle_packet b2 (0, PacketMotionData 2 ?motionB) = Inr (b3, True)"
    unfolding b3_def using b2s(2) by (intro handle_packet_motion) simp_all
  have "well_formed (build_data b3 0 (?cars ! 0))"
    "75 \<le> win_width (stdscr b3)" "15 \<le> win_height (stdscr b3)"
    by (simp_all add: b3_def b2s s1 s1_def s0 car well_formed_eval example_car_def)
  from telemetry_step_on_screen [OF _ this] obtain b4 where
    b4: "handle_packet b3 (6, PacketCarTelemetryData 0 ?cars) = Inr (b4, True)"
    by auto
  have runB: "for_packets s0 ((5, PacketCarSetupData 2 ?setups) # ?esB @
      [(6, PacketCarTelemetryData 0 ?cars)]) = Inr (b4, True)"
    by (simp add: e1 b2 b3 b4)
  from fuel_is_sticky [OF s0(1) h2 hB runB] s0(4)
  have "player_car_index b4 = Some 0 \<and> fuel (data b4) = Some (FloatV (Fin 42))"
    by auto
  with runB have B: "map_sum id (\<lambda>r. (player_car_index (fst r), fuel (data (fst r)), snd r))
     (for_packets s0 ((5, PacketCarSetupData 2 ?setups) # ?esB @
        [(6, PacketCarTelemetryData 0 ?cars)])) = Inr (Some 0, Some (FloatV (Fin 42)), True)"
    by simp
  show ?thesis
    using s0(1-4) A B unfolding s0_def by simp
qed

text \<open>
  The claim as stated fails when the index of the player's car changes: car 2 is tracked
  and a setup packet stores its fuel load 10, car 3 becomes the tracked car and a setup
  packet stores its fuel load 42, the next snapshot has 42; then a car telemetry packet
  names car 2 again and, with no setup packet in between, the snapshot has the fuel 10
  of the older store entry.
\<close>

theorem fuel_is_sticky_counterexample:
  "map_sum id (\<lambda>r. fuel (data (fst r)))
     (for_packets (initial_state example_screen)
        [(6, PacketCarTelemetryData 2 [example_car, example_car, example_car, example_car]),
         (5, PacketCarSetupData 2 [\<lparr>m_fuelLoad = FloatV (Fin 5)\<rparr>, \<lparr>m_fuelLoad = FloatV (Fin 6)\<rparr>,
               \<lparr>m_fuelLoad = FloatV (Fin 10)\<rparr>, \<lparr>m_fuelLoad = FloatV (Fin 20)\<rparr>]),
         (6, PacketCarTelemetryData 3 [example_car, example_car, example_car, example_car]),
         (5, PacketCarSetupData 3 [\<lparr>m_fuelLoad = FloatV (Fin 5)\<rparr>, \<lparr>m_fuelLoad = FloatV (Fin 6)\<rparr>,
               \<lparr>m_fuelLoad = FloatV (Fin 10)\<rparr>, \<lparr>m_fuelLoad = FloatV (Fin 42)\<rparr>]),
         (6, PacketCarTelemetryData 3 [example_car, example_car, example_car, example_car])]) =
     Inr (Some (FloatV (Fin 42))) \<and>
   map_sum id (\<lambda>r. fuel (data (fst r)))
     (for_packets (initial_state example_screen)
        [(6, PacketCarTelemetryData 2 [example_car, example_car, example_car, example_car]),
         (5, PacketCarSetupData 2 [\<lparr>m_fuelLoad = FloatV (Fin 5)\<rparr>, \<lparr>m_fuelLoad = FloatV (Fin 6)\<rparr>,
               \<lparr>m_fuelLoad = FloatV (Fin 10)\<rparr>, \<lparr>m_fuelLoad = FloatV (Fin 20)\<rparr>]),
         (6, PacketCarTelemetryData 3 [example_car, example_car, example_car, example_car]),
         (5, PacketCarSetupData 3 [\<lparr>m_fuelLoad = FloatV (Fin 5)\<rparr>, \<lparr>m_fuelLoad = FloatV (Fin 6)\<rparr>,
               \<lparr>m_fuelLoad = FloatV (Fin 10)\<rparr>, \<lparr>m_fuelLoad = FloatV (Fin 42)\<rparr>]),
         (6, PacketCarTelemetryData 3 [example_car, example_car, example_car, example_car]),
         (6, PacketCarTelemetryData 2 [example_car, example_car, example_car, example_car])]) =
     Inr (Some (FloatV (Fin 10)))"
proof -
  let ?cars = "[example_car, example_car, example_car, example_car]"
  let ?setA = "[\<lparr>m_fuelLoad = FloatV (Fin 5)\<rparr>, \<lparr>m_fuelLoad = FloatV (Fin 6)\<rparr>,
                \<lparr>m_fuelLoad = FloatV (Fin 10)\<rparr>, \<lparr>m_fuelLoad = FloatV (Fin 20)\<rparr>]"
  let ?setB = "[\<lparr>m_fuelLoad = FloatV (Fin 5)\<rparr>, \<lparr>m_fuelLoad = FloatV (Fin 6)\<rparr>,
                \<lparr>m_fuelLoad = FloatV (Fin 10)\<rparr>, \<lparr>m_fuelLoad = FloatV (Fin 42)\<rparr>]"
  define s0 where "s0 = initial_state example_screen"
  have s0: "fuel (data s0) = None" "motion_data s0 = Map.empty" "status_data s0 = Map.empty"
    "car_setup_data s0 = Map.empty" "win_width (stdscr s0) = 80" "win_height (stdscr s0) = 24"
    by (simp_all add: s0_def initial_state_def empty_data_def example_screen_def newwin_def)
  have car: "\<And>k. k < 4 \<Longrightarrow> ?cars ! k = example_car"
    by (simp add: nth_Cons split: nat.splits)
  have "well_formed (build_data s0 2 (?cars ! 2))"
    "75 \<le> win_width (stdscr s0)" "15 \<le> win_height (stdscr s0)"
    by (simp_all add: s0 car well_formed_eval example_car_def)
  from telemetry_step_on_screen [OF _ this] obtain s1 where
    e1: "handle_packet s0 (6, PacketCarTelemetryData 2 ?cars) = Inr (s1, True)"
    and s1: "data s1 = build_data s0 2 (?cars ! 2)" "player_car_index s1 = Some 2"
      "motion_data s1 = motion_data s0" "status_data s1 = status_data s0"
      "car_setup_data s1 = car_setup_data s0"
      "win_width (stdscr s1) = win_width (stdscr s0)"
      "win_height (stdscr s1) = win_height (stdscr s0)"
    by auto
  define s2 where "s2 = s1\<lparr>car_setup_data := (car_setup_data s1)(2 \<mapsto> ?setA ! 2)\<rparr>"
  have e2: "handle_packet s1 (5, PacketCarSetupData 2 ?setA) = Inr (s2, True)"
    unfolding s2_def using s1(2) by (intro handle_packet_setup) simp_all
  have "well_formed (build_data s2 3 (?cars ! 3))"
    "75 \<le> win_width (stdscr s2)" "15 \<le> win_height (stdscr s2)"
    by (simp_all add: s2_def s1 s0 car well_formed_eval example_car_def)
  from telemetry_step_on_screen [OF _ this] obtain s3 where
    e3: "handle_packet s2 (6, PacketCarTelemetryData 3 ?cars) = Inr (s3, True)"
    and s3: "data s3 = build_data s2 3 (?cars ! 3)" "player_car_index s3 = Some 3"
      "motion_data s3 = motion_data s2" "status_data s3 = status_data s2"
      "car_setup_data s3 = car_setup_data s2"
      "win_width (stdscr s3) = win_width (stdscr s2)"
      "win_height (stdscr s3) = win_height (stdscr s2)"
    by auto
  define s4 where "s4 = s3\<lparr>car_setup_data := (car_setup_data s3)(3 \<mapsto> ?setB ! 3)\<rparr>"
  have e4: "handle_packet s3 (5, PacketCarSetupData 3 ?setB) = Inr (s4, True)"
    unfolding s4_def using s3(2) by (intro handle_packet_setup) simp_all
  have "well_formed (build_data s4 3 (?cars ! 3))"
    "75 \<le> win_width (stdscr s4)" "15 \<le> win_height (stdscr s4)"
    by (simp_all add: s4_def s3 s2_def s1 s0 car well_formed_eval example_car_def)
  from telemetry_step_on_screen [OF _ this] obtain s5 where
    e5: "handle_packet s4 (6, PacketCarTelemetryData 3 ?cars) = Inr (s5, True)"
    and s5: "data s5 = build_data s4 3 (?cars ! 3)" "player_car_index s5 = Some 3"
      "motion_data s5 = motion_data s4" "status_data s5 = status_data s4"
      "car_setup_data s5 = car_setup_data s4"
      "win_width (stdscr s5) = win_width (stdscr s4)"
      "win_height (stdscr s5) = win_height (stdscr s4)"
    by auto
  have "well_formed (build_data s5 2 (?cars ! 2))"
    "75 \<le> win_width (stdscr s5)" "15 \<le> win_height (stdscr s5)"
    by (simp_all add: s5 s4_def s3 s2_def s1 s0 car well_formed_eval example_car_def)
  from telemetry_step_on_screen [OF _ this] obtain s6 where
    e6: "handle_packet s5 (6, PacketCarTelemetryData 2 ?cars) = Inr (s6, True)"
    and s6: "data s6 = build_data s5 2 (?cars ! 2)"
    by auto
  have f5: "fuel (data s5) = Some (FloatV (Fin 42))"
    by (simp add: s5 build_data_fields s4_def)
  have f6: "fuel (data s6) = Some (FloatV (Fin 10))"
    by (simp add: s6 build_data_fields s5 s4_def s3 s2_def)
  show ?thesis
    unfolding s0_def [symmetric] by (simp add: e1 e2 e3 e4 e5 e6 f5 f6)
qed

subsection \<open>C3: a rotation rate above the maximum\<close>

text \<open>
  Claim C3, as amended. For a rotation rate at or above the maximum (and below
  \<open>2\<^sup>6\<^sup>4\<close> times the maximum, far from the overflow of a float) the fill count is
  computed without a clamp and is at least 30, but the loop draws the 30 cells of the bar
  and no more: all 30 are filled, at the columns \<open>x + 1\<close> to \<open>x + 30\<close> between the
  brackets, and the number of filled cells drawn is exactly 30.
\<close>

theorem rpm_bar_saturates:
  assumes "0 < m" "m \<le> rpm" "rpm \<le> 2 ^ 64 * m"
  shows "\<exists>fill. rpm_bar_fill rpm m = Inr fill \<and> 30 \<le> fill \<and>
     draw_rpm_bar win y x rpm m =
       Inr (win\<lparr>win_calls := win_calls win @
          AddStr y x [Lit ''[''] 1 #
          map (\<lambda>i. AddStr y (x + 1 + i) [Lit ''|''] (rpm_color rpm)) [0..29] @
          [AddStr y (x + 31) [Lit '']''] 1,
           AddStr y (x + 33) [Val (IntV rpm), Lit '' RPM''] 1]\<rparr>) \<and>
     map_sum id filled_cells (draw_rpm_bar win y x rpm m) = Inr (filled_cells win + 30)"
proof -
  obtain fill where fill: "rpm_bar_fill rpm m = Inr fill" "30 \<le> fill"
    using rpm_bar_fill_saturated [OF assms] by blast
  define W where "W = win\<lparr>win_calls := win_calls win @
          AddStr y x [Lit ''[''] 1 #
          map (\<lambda>i. AddStr y (x + 1 + i) [Lit ''|''] (rpm_color rpm)) [0..29] @
          [AddStr y (x + 31) [Lit '']''] 1,
           AddStr y (x + 33) [Val (IntV rpm), Lit '' RPM''] 1]\<rparr>"
  have d: "draw_rpm_bar win y x rpm m = Inr W"
    unfolding draw_rpm_bar_calls [OF fill(1)] full_cells [OF fill(2)] W_def by (rule refl)
  have "filled_cells W = filled_cells win + 30"
    unfolding W_def by (rule filled_cells_full_bar)
  then have "map_sum id filled_cells (draw_rpm_bar win y x rpm m) = Inr (filled_cells win + 30)"
    by (simp add: d)
  with fill d show ?thesis unfolding W_def by blast
qed

text \<open>
  The theorem at the rate 16000 against the maximum 15000.
\<close>

theorem rpm_bar_saturates_witness:
  "(0::int) < 15000 \<and> (15000::int) \<le> 16000 \<and> (16000::int) \<le> 2 ^ 64 * 15000 \<and>
   map_sum id filled_cells (draw_rpm_bar (newwin 15 75 1 2) 3 2 16000 15000) = Inr 30"
proof -
  have h: "(0::int) < 15000" "(15000::int) \<le> 16000" "(16000::int) \<le> 2 ^ 64 * 15000"
    by simp_all
  from rpm_bar_saturates [OF h, of "newwin 15 75 1 2" 3 2]
  have "map_sum id filled_cells (draw_rpm_bar (newwin 15 75 1 2) 3 2 16000 15000) =
        Inr (filled_cells (newwin 15 75 1 2) + 30)"
    by blast
  then show ?thesis using h by (simp add: filled_cells_def newwin_def)
qed

text \<open>
  The claim as stated fails: at the rate 16000 the fill count is 32, and the number of
  filled cells drawn is 30, which does not exceed the width of the bar.
\<close>

theorem rpm_bar_overfill_counterexample:
  "rpm_bar_fill 16000 15000 = Inr 32 \<and>
   map_sum id filled_cells (draw_rpm_bar (newwin 15 75 1 2) 3 2 16000 15000) = Inr 30"
proof -
  have f: "rpm_bar_fill 16000 15000 = Inr 32"
    using rpm_bar_fill_15000 [of 16000] by simp
  define W where "W = (newwin 15 75 1 2)\<lparr>win_calls := win_calls (newwin 15 75 1 2) @
          AddStr 3 2 [Lit ''[''] 1 #
          map (\<lambda>i. AddStr 3 (2 + 1 + i) [Lit ''|''] (rpm_color 16000)) [0..29] @
          [AddStr 3 (2 + 31) [Lit '']''] 1,
           AddStr 3 (2 + 33) [Val (IntV 16000), Lit '' RPM''] 1]\<rparr>"
  have "(30::int) \<le> 32" by simp
  note full = full_cells [OF this]
  have d: "draw_rpm_bar (newwin 15 75 1 2) 3 2 16000 15000 = Inr W"
    unfolding draw_rpm_bar_calls [OF f] full W_def by (rule refl)
  have "filled_cells W = filled_cells (newwin 15 75 1 2) + 30"
    unfolding W_def by (rule filled_cells_full_bar)
  then have "filled_cells W = 30" by (simp add: filled_cells_def newwin_def)
  then show ?thesis using f by (simp add: d)
qed

subsection \<open>C4: drawing on a terminal that is large enough\<close>

text \<open>
  Claim C4. On every main window of at least 75 columns and 15 rows, and for every
  well-formed dictionary, \<^verbatim>\<open>draw_telemetry_box\<close> clears the main window, creates the
  panel of 15 rows and 75 columns at row 1 and column 2, draws its border first and the
  speed and gear lines next, refreshes the panel last and returns true; no error is
  raised.
\<close>

theorem render_succeeds_on_large_surface:
  assumes "well_formed d" "75 \<le> win_width scr" "15 \<le> win_height scr"
  shows "\<exists>cs. draw_telemetry_box scr d =
     Inr (scr\<lparr>win_calls := win_calls scr @ [Clear]\<rparr>,
          Some \<lparr>win_height = 15, win_width = 75, win_begin_y = 1, win_begin_x = 2,
                win_calls = Box #
                  AddStr 1 2 [Lit ''Speed: '', Val (dict_get (engine_speed d) (IntV 0)),
                              Lit '' km/h''] 1 #
                  AddStr 2 2 [Lit ''Gear: '', Val (dict_get (gear d) (IntV 0))] 1 #
                  cs @ [Refresh]\<rparr>,
          True)"
  using assms by (rule draw_telemetry_box_ok)

text \<open>
  The theorem on a terminal of 80 by 24.
\<close>

theorem render_succeeds_on_large_surface_witness:
  "well_formed example_data \<and> 75 \<le> win_width example_screen \<and>
   15 \<le> win_height example_screen \<and>
   map_sum id (\<lambda>r. (fst r, snd (snd r))) (draw_telemetry_box example_screen example_data) =
     Inr (example_screen\<lparr>win_calls := [Clear]\<rparr>, True)"
proof -
  have h: "well_formed example_data" "75 \<le> win_width example_screen"
    "15 \<le> win_height example_screen"
    by (simp_all add: well_formed_eval example_defs newwin_def)
  from render_succeeds_on_large_surface [OF h] obtain r where
    "draw_telemetry_box example_screen example_data =
       Inr (example_screen\<lparr>win_calls := win_calls example_screen @ [Clear]\<rparr>, r, True)"
    by blast
  then show ?thesis using h by (simp add: example_screen_def newwin_def)
qed

subsection \<open>C5: a terminal that is too small\<close>

text \<open>
  Claim C5, at the input on which the code fails it: a terminal of 30 columns and one row
  and a car telemetry packet. The terminal is smaller than the minimum, and the claim
  expects the notice, the result false and the return of the loop. The code takes the
  branch of the notice, but the 48 characters of
  \<^verbatim>\<open>Terminal too small. Please resize and try again.\<close> do not fit the 30 cells: the
  write of line 107 raises \<^verbatim>\<open>curses.error\<close>, \<^verbatim>\<open>draw_telemetry_box\<close> returns neither
  false nor true, and \<^verbatim>\<open>print_telemetry\<close> is left by the exception and not by the return
  of line 217. The same happens on every small terminal of 48 cells or fewer, and on every
  small terminal of more than 48 cells the code does what the claim says
  (\<open>small_surface_behaviour\<close>).
\<close>

theorem render_raises_on_tiny_surface:
  "win_width (newwin 1 30 0 0) < 75 \<and>
   too_small_notice = ''Terminal too small. Please resize and try again.'' \<and>
   length too_small_notice = 48 \<and>
   draw_telemetry_box (newwin 1 30 0 0) example_data = Inl CursesError \<and>
   handle_packet (initial_state (newwin 1 30 0 0)) (6, PacketCarTelemetryData 0 [example_car]) =
     Inl CursesError \<and>
   print_telemetry (newwin 1 30 0 0) [([(6, PacketCarTelemetryData 0 [example_car])], 0)] =
     Inl CursesError"
proof -
  have small: "win_width (newwin 1 30 0 0) < 75 \<or> win_height (newwin 1 30 0 0) < 15"
    and tight: "\<not> fits (newwin 1 30 0 0) 0 0 too_small_notice"
    by (simp_all add: fits_notice newwin_def)
  have "draw_telemetry_box (newwin 1 30 0 0) example_data = Inl CursesError"
    using small tight by (rule draw_telemetry_box_tiny)
  moreover have step: "handle_packet (initial_state (newwin 1 30 0 0))
      (6, PacketCarTelemetryData 0 [example_car]) = Inl CursesError"
    using small tight by (intro telemetry_step_tiny) (simp_all add: initial_state_def)
  moreover from step have "print_telemetry (newwin 1 30 0 0)
      [([(6, PacketCarTelemetryData 0 [example_car])], 0)] = Inl CursesError"
    by (simp add: print_telemetry_def)
  moreover have "win_width (newwin 1 30 0 0) < 75" by (simp add: newwin_def)
  moreover have "too_small_notice = ''Terminal too small. Please resize and try again.''"
    "length too_small_notice = 48"
    by (simp_all add: too_small_notice_def)
  ultimately show ?thesis by blast
qed

subsection \<open>C6: the fill count of the rotation-rate bar\<close>

text \<open>
  Claim C6, as amended. With the maximum 15000, for every rotation rate from 0 to 65535
  other than 61500 the fill count is the floor of \<open>rpm / 15000 \<times> 30\<close>; at the rate
  15000 all 30 cells of the bar are filled, and at the rate 0 all 30 cells are blank.
\<close>

theorem rpm_fill_is_floor:
  "(\<forall>rpm. 0 \<le> rpm \<and> rpm \<le> 65535 \<and> rpm \<noteq> 61500 \<longrightarrow>
      rpm_bar_fill rpm 15000 = Inr \<lfloor>(of_int rpm / 15000 * 30 :: rat)\<rfloor>) \<and>
   (\<forall>win y x. draw_rpm_bar win y x 15000 15000 =
      Inr (win\<lparr>win_calls := win_calls win @
          AddStr y x [Lit ''[''] 1 #
          map (\<lambda>i. AddStr y (x + 1 + i) [Lit ''|''] 4) [0..29] @
          [AddStr y (x + 31) [Lit '']''] 1,
           AddStr y (x + 33) [Val (IntV 15000), Lit '' RPM''] 1]\<rparr>)) \<and>
   (\<forall>win y x. draw_rpm_bar win y x 0 15000 =
      Inr (win\<lparr>win_calls := win_calls win @
          AddStr y x [Lit ''[''] 1 #
          map (\<lambda>i. AddStr y (x + 1 + i) [Lit '' ''] 2) [0..29] @
          [AddStr y (x + 31) [Lit '']''] 1,
           AddStr y (x + 33) [Val (IntV 0), Lit '' RPM''] 1]\<rparr>))"
proof (intro conjI allI impI)
  fix rpm :: int
  assume "0 \<le> rpm \<and> rpm \<le> 65535 \<and> rpm \<noteq> 61500"
  then show "rpm_bar_fill rpm 15000 = Inr \<lfloor>(of_int rpm / 15000 * 30 :: rat)\<rfloor>"
    unfolding exact_fill by (intro rpm_bar_fill_15000) simp_all
next
  fix win y x
  have f: "rpm_bar_fill 15000 15000 = Inr 30" using rpm_bar_fill_15000 [of 15000] by simp
  show "draw_rpm_bar win y x 15000 15000 =
      Inr (win\<lparr>win_calls := win_calls win @
          AddStr y x [Lit ''[''] 1 #
          map (\<lambda>i. AddStr y (x + 1 + i) [Lit ''|''] 4) [0..29] @
          [AddStr y (x + 31) [Lit '']''] 1,
           AddStr y (x + 33) [Val (IntV 15000), Lit '' RPM''] 1]\<rparr>)"
    unfolding draw_rpm_bar_calls [OF f] by (subst full_cells) (simp_all add: rpm_color_def)
next
  fix win y x
  have f: "rpm_bar_fill 0 15000 = Inr 0" using rpm_bar_fill_15000 [of 0] by simp
  show "draw_rpm_bar win y x 0 15000 =
      Inr (win\<lparr>win_calls := win_calls win @
          AddStr y x [Lit ''[''] 1 #
          map (\<lambda>i. AddStr y (x + 1 + i) [Lit '' ''] 2) [0..29] @
          [AddStr y (x + 31) [Lit '']''] 1,
           AddStr y (x + 33) [Val (IntV 0), Lit '' RPM''] 1]\<rparr>)"
    unfolding draw_rpm_bar_calls [OF f] by (subst empty_cells) (simp_all add: rpm_color_def)
qed

text \<open>
  The theorem at the rate 7777.
\<close>

theorem rpm_fill_is_floor_witness:
  "(0::int) \<le> 7777 \<and> (7777::int) \<le> 65535 \<and> (7777::int) \<noteq> 61500 \<and>
   rpm_bar_fill 7777 15000 = Inr 15"
proof -
  have "rpm_bar_fill 7777 15000 = Inr \<lfloor>(of_int 7777 / 15000 * 30 :: rat)\<rfloor>"
    using rpm_fill_is_floor by simp
  then show ?thesis by simp
qed

text \<open>
  The claim as stated fails at the rate 61500: the quotient 4.1 is rounded down to the
  nearest float, the product with 30 is rounded to the float just below 123, and the fill
  count is 122 where the floor of the exact value is 123.
\<close>

theorem rpm_fill_is_floor_counterexample:
  "(0::int) \<le> 61500 \<and> rpm_bar_fill 61500 15000 = Inr 122 \<and>
   \<lfloor>(of_int 61500 / 15000 * 30 :: rat)\<rfloor> = 123"
  using rpm_bar_fill_61500 by simp

subsection \<open>C7: the tiers of the rotation rate\<close>

text \<open>
  Claim C7. The colour pair of the rotation-rate bar is chosen by closed lower bounds:
  9999 is normal (pair 2), 10000 and 11999 are warning (pair 3), 12000 is critical
  (pair 4); in general a rate of at least 12000 is critical, a rate from 10000 up to but
  not including 12000 is warning, and a rate below 10000 is normal. Every cell of the bar
  that \<^verbatim>\<open>draw_rpm_bar\<close> draws carries that colour pair.
\<close>

theorem rpm_tier_boundaries:
  "rpm_color 9999 = 2 \<and> rpm_color 10000 = 3 \<and> rpm_color 11999 = 3 \<and> rpm_color 12000 = 4 \<and>
   (\<forall>rpm. (12000 \<le> rpm \<longrightarrow> rpm_color rpm = 4) \<and>
          (10000 \<le> rpm \<and> rpm < 12000 \<longrightarrow> rpm_color rpm = 3) \<and>
          (rpm < 10000 \<longrightarrow> rpm_color rpm = 2)) \<and>
   (\<forall>win y x rpm m fill. rpm_bar_fill rpm m = Inr fill \<longrightarrow>
      draw_rpm_bar win y x rpm m =
        Inr (win\<lparr>win_calls := win_calls win @
          AddStr y x [Lit ''[''] 1 #
          map (\<lambda>i. AddStr y (x + 1 + i) [Lit (if i < fill then ''|'' else '' '')]
                 (rpm_color rpm)) [0..29] @
          [AddStr y (x + 31) [Lit '']''] 1,
           AddStr y (x + 33) [Val (IntV rpm), Lit '' RPM''] 1]\<rparr>))"
proof -
  have "\<forall>win y x rpm m fill. rpm_bar_fill rpm m = Inr fill \<longrightarrow>
      draw_rpm_bar win y x rpm m =
        Inr (win\<lparr>win_calls := win_calls win @
          AddStr y x [Lit ''[''] 1 #
          map (\<lambda>i. AddStr y (x + 1 + i) [Lit (if i < fill then ''|'' else '' '')]
                 (rpm_color rpm)) [0..29] @
          [AddStr y (x + 31) [Lit '']''] 1,
           AddStr y (x + 33) [Val (IntV rpm), Lit '' RPM''] 1]\<rparr>)"
    by (intro allI impI draw_rpm_bar_calls)
  then show ?thesis by (simp add: rpm_color_def)
qed

text \<open>
  The theorem at the rate 10000 against a maximum of 15000.
\<close>

theorem rpm_tier_boundaries_witness:
  "rpm_bar_fill 10000 15000 = Inr 20 \<and> (10000::int) \<le> 10000 \<and> (10000::int) < 12000 \<and>
   rpm_color 10000 = 3 \<and>
   map_sum id (\<lambda>w. win_calls w ! 1) (draw_rpm_bar (newwin 15 75 1 2) 3 2 10000 15000) =
     Inr (AddStr 3 3 [Lit ''|''] 3)"
proof -
  have f: "rpm_bar_fill 10000 15000 = Inr 20" by (rule rpm_bar_fill_10000)
  from rpm_tier_boundaries have c: "rpm_color 10000 = 3" by blast
  from rpm_tier_boundaries f
  have "draw_rpm_bar (newwin 15 75 1 2) 3 2 10000 15000 =
        Inr ((newwin 15 75 1 2)\<lparr>win_calls := win_calls (newwin 15 75 1 2) @
          AddStr 3 2 [Lit ''[''] 1 #
          map (\<lambda>i. AddStr 3 (2 + 1 + i) [Lit (if i < 20 then ''|'' else '' '')]
                 (rpm_color 10000)) [0..29] @
          [AddStr 3 (2 + 31) [Lit '']''] 1,
           AddStr 3 (2 + 33) [Val (IntV 10000), Lit '' RPM''] 1]\<rparr>)"
    by blast
  then show ?thesis using f c by (simp add: newwin_def upto_from_0)
qed

subsection \<open>C8: the tiers of wear and temperature\<close>

text \<open>
  Claim C8. For every wheel the wear is normal (pair 2) up to 50, warning (pair 5) above
  50 and up to 75, and critical (pair 3) above 75, so that 50 is normal, 51 is warning and
  76 is critical; the temperature is normal up to 150, warning above 150 and up to 250,
  and critical above 250, so that 150 is normal, 151 is warning and 251 is critical. The
  line of each wheel is drawn in the colour pair of its value.
\<close>

theorem wheel_tier_boundaries:
  "(\<forall>n. (n \<le> 50 \<longrightarrow> wear_color (IntV n) = 2) \<and>
        (50 < n \<and> n \<le> 75 \<longrightarrow> wear_color (IntV n) = 5) \<and>
        (75 < n \<longrightarrow> wear_color (IntV n) = 3)) \<and>
   (\<forall>q. (q \<le> 50 \<longrightarrow> wear_color (FloatV (Fin q)) = 2) \<and>
        (50 < q \<and> q \<le> 75 \<longrightarrow> wear_color (FloatV (Fin q)) = 5) \<and>
        (75 < q \<longrightarrow> wear_color (FloatV (Fin q)) = 3)) \<and>
   wear_color (IntV 50) = 2 \<and> wear_color (IntV 51) = 5 \<and> wear_color (IntV 76) = 3 \<and>
   (\<forall>n. (n \<le> 150 \<longrightarrow> temp_color (IntV n) = 2) \<and>
        (150 < n \<and> n \<le> 250 \<longrightarrow> temp_color (IntV n) = 5) \<and>
        (250 < n \<longrightarrow> temp_color (IntV n) = 3)) \<and>
   (\<forall>q. (q \<le> 150 \<longrightarrow> temp_color (FloatV (Fin q)) = 2) \<and>
        (150 < q \<and> q \<le> 250 \<longrightarrow> temp_color (FloatV (Fin q)) = 5) \<and>
        (250 < q \<longrightarrow> temp_color (FloatV (Fin q)) = 3)) \<and>
   temp_color (IntV 150) = 2 \<and> temp_color (IntV 151) = 5 \<and> temp_color (IntV 251) = 3 \<and>
   (\<forall>win temps. length temps \<le> 4 \<longrightarrow>
      draw_tire_temperatures win 0 temps =
        Inr (win\<lparr>win_calls := win_calls win @
          map (\<lambda>k. AddStr (9 + int k) 2
                 [Lit (tire_labels ! k), Lit '' Temp: '', Val (temps ! k),
                  Lit [CHR 0xB0, CHR ''C'']] (temp_color (temps ! k)))
            [0..<length temps]\<rparr>)) \<and>
   (\<forall>win wear. length wear \<le> 4 \<longrightarrow>
      draw_tire_wear win 0 wear =
        Inr (win\<lparr>win_calls := win_calls win @
          map (\<lambda>k. AddStr (9 + int k) 30
                 [Lit (tire_labels ! k), Lit '' Wear: '', Val (wear ! k), Lit ''%'']
                 (wear_color (wear ! k)))
            [0..<length wear]\<rparr>))"
proof -
  have t: "\<And>win temps. length temps \<le> 4 \<Longrightarrow>
      draw_tire_temperatures win 0 temps =
        Inr (win\<lparr>win_calls := win_calls win @
          map (\<lambda>k. AddStr (9 + int k) 2
                 [Lit (tire_labels ! k), Lit '' Temp: '', Val (temps ! k),
                  Lit [CHR 0xB0, CHR ''C'']] (temp_color (temps ! k)))
            [0..<length temps]\<rparr>)"
    using draw_tire_temperatures_calls [where i = 0] by simp
  have w: "\<And>win wear. length wear \<le> 4 \<Longrightarrow>
      draw_tire_wear win 0 wear =
        Inr (win\<lparr>win_calls := win_calls win @
          map (\<lambda>k. AddStr (9 + int k) 30
                 [Lit (tire_labels ! k), Lit '' Wear: '', Val (wear ! k), Lit ''%'']
                 (wear_color (wear ! k)))
            [0..<length wear]\<rparr>)"
    using draw_tire_wear_calls [where i = 0] by simp
  show ?thesis
    using t w by (simp add: wear_color_def temp_color_def py_gt_def py_le_def)
qed

text \<open>
  The theorem at the wear 51 and at the temperatures 90, 151, 251 and 150.
\<close>

theorem wheel_tier_boundaries_witness:
  "(51::int) \<le> 75 \<and> (50::int) < 51 \<and> wear_color (IntV 51) = 5 \<and>
   (150::int) < 151 \<and> (151::int) \<le> 250 \<and> temp_color (IntV 151) = 5 \<and>
   length [IntV 90, IntV 151, IntV 251, IntV 150] \<le> 4 \<and>
   draw_tire_temperatures (newwin 15 75 1 2) 0 [IntV 90, IntV 151, IntV 251, IntV 150] =
     Inr ((newwin 15 75 1 2)\<lparr>win_calls :=
       [AddStr 9 2 [Lit ''RL'', Lit '' Temp: '', Val (IntV 90), Lit [CHR 0xB0, CHR ''C'']] 2,
        AddStr 10 2 [Lit ''RR'', Lit '' Temp: '', Val (IntV 151), Lit [CHR 0xB0, CHR ''C'']] 5,
        AddStr 11 2 [Lit ''FL'', Lit '' Temp: '', Val (IntV 251), Lit [CHR 0xB0, CHR ''C'']] 3,
        AddStr 12 2 [Lit ''FR'', Lit '' Temp: '', Val (IntV 150), Lit [CHR 0xB0, CHR ''C'']] 2]\<rparr>)"
proof -
  from wheel_tier_boundaries
  have 1: "wear_color (IntV 51) = 5" "temp_color (IntV 151) = 5" "temp_color (IntV 251) = 3"
    "temp_color (IntV 150) = 2" "temp_color (IntV 90) = 2"
    by simp_all
  have len: "length [IntV 90, IntV 151, IntV 251, IntV 150] \<le> 4" by simp
  from wheel_tier_boundaries len
  have "draw_tire_temperatures (newwin 15 75 1 2) 0 [IntV 90, IntV 151, IntV 251, IntV 150] =
        Inr ((newwin 15 75 1 2)\<lparr>win_calls := win_calls (newwin 15 75 1 2) @
          map (\<lambda>k. AddStr (9 + int k) 2
                 [Lit (tire_labels ! k), Lit '' Temp: '',
                  Val ([IntV 90, IntV 151, IntV 251, IntV 150] ! k),
                  Lit [CHR 0xB0, CHR ''C'']]
                 (temp_color ([IntV 90, IntV 151, IntV 251, IntV 150] ! k)))
            [0..<length [IntV 90, IntV 151, IntV 251, IntV 150]]\<rparr>)"
    by blast
  then show ?thesis
    using 1 by (simp add: newwin_def tire_labels_def upt_conv_Cons del: upt_Suc)
qed

subsection \<open>C9: only a car telemetry packet draws\<close>

text \<open>
  Claim C9. A packet of any kind other than car telemetry never draws and never changes
  the dictionary or the tracked index: a motion, status or setup packet changes at most
  its own store (it stores the record of the tracked car), and a packet of an
  unrecognised kind changes nothing at all. A car telemetry packet that is handled
  without an error builds a new dictionary and calls the renderer, which clears the main
  window.
\<close>

theorem only_telemetry_emits_snapshot:
  "(\<forall>s packet_id pkt s' ok.
      packet_id \<noteq> 6 \<and> handle_packet s (packet_id, pkt) = Inr (s', ok) \<longrightarrow>
        ok \<and> data s' = data s \<and> stdscr s' = stdscr s \<and> panels s' = panels s \<and>
        player_car_index s' = player_car_index s \<and>
        (packet_id \<noteq> 0 \<longrightarrow> motion_data s' = motion_data s) \<and>
        (packet_id \<noteq> 7 \<longrightarrow> status_data s' = status_data s) \<and>
        (packet_id \<noteq> 5 \<longrightarrow> car_setup_data s' = car_setup_data s)) \<and>
   (\<forall>s packet_id pkt.
      packet_id \<noteq> 0 \<and> packet_id \<noteq> 5 \<and> packet_id \<noteq> 6 \<and> packet_id \<noteq> 7 \<longrightarrow>
        handle_packet s (packet_id, pkt) = Inr (s, True)) \<and>
   (\<forall>s i h cars. player_car_index s = Some i \<and> i < length cars \<longrightarrow>
      handle_packet s (0, PacketMotionData h cars) =
        Inr (s\<lparr>motion_data := (motion_data s)(i \<mapsto> cars ! i)\<rparr>, True)) \<and>
   (\<forall>s i h cars. player_car_index s = Some i \<and> i < length cars \<longrightarrow>
      handle_packet s (7, PacketCarStatusData h cars) =
        Inr (s\<lparr>status_data := (status_data s)(i \<mapsto> cars ! i)\<rparr>, True)) \<and>
   (\<forall>s i h cars. player_car_index s = Some i \<and> i < length cars \<longrightarrow>
      handle_packet s (5, PacketCarSetupData h cars) =
        Inr (s\<lparr>car_setup_data := (car_setup_data s)(i \<mapsto> cars ! i)\<rparr>, True)) \<and>
   (\<forall>s pkt s' ok. handle_packet s (6, pkt) = Inr (s', ok) \<longrightarrow>
      (\<exists>cars cs. pkt = PacketCarTelemetryData (m_playerCarIndex pkt) cars \<and>
         m_playerCarIndex pkt < length cars \<and>
         data s' = build_data s (m_playerCarIndex pkt) (cars ! m_playerCarIndex pkt) \<and>
         win_calls (stdscr s') = win_calls (stdscr s) @ Clear # cs))"
proof -
  have other: "\<forall>s packet_id pkt s' ok.
      packet_id \<noteq> 6 \<and> handle_packet s (packet_id, pkt) = Inr (s', ok) \<longrightarrow>
        ok \<and> data s' = data s \<and> stdscr s' = stdscr s \<and> panels s' = panels s \<and>
        player_car_index s' = player_car_index s \<and>
        (packet_id \<noteq> 0 \<longrightarrow> motion_data s' = motion_data s) \<and>
        (packet_id \<noteq> 7 \<longrightarrow> status_data s' = status_data s) \<and>
        (packet_id \<noteq> 5 \<longrightarrow> car_setup_data s' = car_setup_data s)"
  proof (intro allI impI)
    fix s packet_id pkt s' ok
    assume "packet_id \<noteq> 6 \<and> handle_packet s (packet_id, pkt) = Inr (s', ok)"
    then have "packet_id \<noteq> 6" "handle_packet s (packet_id, pkt) = Inr (s', ok)" by simp_all
    then show "ok \<and> data s' = data s \<and> stdscr s' = stdscr s \<and> panels s' = panels s \<and>
        player_car_index s' = player_car_index s \<and>
        (packet_id \<noteq> 0 \<longrightarrow> motion_data s' = motion_data s) \<and>
        (packet_id \<noteq> 7 \<longrightarrow> status_data s' = status_data s) \<and>
        (packet_id \<noteq> 5 \<longrightarrow> car_setup_data s' = car_setup_data s)"
      by (rule handle_packet_other)
  qed
  have telemetry: "\<forall>s pkt s' ok. handle_packet s (6, pkt) = Inr (s', ok) \<longrightarrow>
      (\<exists>cars cs. pkt = PacketCarTelemetryData (m_playerCarIndex pkt) cars \<and>
         m_playerCarIndex pkt < length cars \<and>
         data s' = build_data s (m_playerCarIndex pkt) (cars ! m_playerCarIndex pkt) \<and>
         win_calls (stdscr s') = win_calls (stdscr s) @ Clear # cs)"
  proof (intro allI impI)
    fix s pkt s' ok
    assume run: "handle_packet s (6, pkt) = Inr (s', ok)"
    then obtain cars where pkt: "pkt = PacketCarTelemetryData (m_playerCarIndex pkt) cars"
      and len: "m_playerCarIndex pkt < length cars"
      and d: "data s' = build_data s (m_playerCarIndex pkt) (cars ! m_playerCarIndex pkt)"
      using handle_packet_telemetry_Inr by blast
    let ?d = "build_data s (m_playerCarIndex pkt) (cars ! m_playerCarIndex pkt)"
    from run pkt
    have run': "handle_packet s (6, PacketCarTelemetryData (m_playerCarIndex pkt) cars)
        = Inr (s', ok)" by simp
    have "\<exists>cs. win_calls (stdscr s') = win_calls (stdscr s) @ Clear # cs"
    proof (cases "draw_telemetry_box (stdscr s) ?d")
      case (Inl e)
      with run' show ?thesis by (simp add: handle_packet_telemetry [OF len])
    next
      case (Inr r)
      obtain scr panel b where r: "r = (scr, panel, b)" by (cases r)
      have "\<exists>cs. win_calls scr = win_calls (stdscr s) @ Clear # cs"
        using Inr r
        by (auto simp: draw_telemetry_box_def Let_def clear_def addstr_def refresh_def
            addstr_checked_def split: if_splits sum.splits)
      moreover have "stdscr s' = scr"
        using run' Inr r by (auto simp: handle_packet_telemetry [OF len])
      ultimately show ?thesis by simp
    qed
    with pkt len d
    show "\<exists>cars cs. pkt = PacketCarTelemetryData (m_playerCarIndex pkt) cars \<and>
           m_playerCarIndex pkt < length cars \<and>
           data s' = build_data s (m_playerCarIndex pkt) (cars ! m_playerCarIndex pkt) \<and>
           win_calls (stdscr s') = win_calls (stdscr s) @ Clear # cs"
      by blast
  qed
  show ?thesis
    by (intro conjI other telemetry)
       (simp_all add: handle_packet_unrecognised handle_packet_motion handle_packet_status
          handle_packet_setup)
qed

text \<open>
  The theorem at a motion packet and at a packet of kind 3, with car 0 tracked.
\<close>

theorem only_telemetry_emits_snapshot_witness:
  "player_car_index example_state = Some 0 \<and>
   (0::nat) < length [\<lparr>m_gForceLateral = FloatV (Fin (3 / 2))\<rparr>] \<and>
   handle_packet example_state (0, PacketMotionData 0 [\<lparr>m_gForceLateral = FloatV (Fin (3 / 2))\<rparr>]) =
     Inr (example_state\<lparr>motion_data := [0 \<mapsto> \<lparr>m_gForceLateral = FloatV (Fin (3 / 2))\<rparr>]\<rparr>,
          True) \<and>
   (3::int) \<noteq> 6 \<and>
   handle_packet example_state (3, PacketOther 0) = Inr (example_state, True)"
proof -
  have h: "player_car_index example_state = Some 0"
    "(0::nat) < length [\<lparr>m_gForceLateral = FloatV (Fin (3 / 2))\<rparr>]"
    by (simp_all add: example_state_def)
  note motion = only_telemetry_emits_snapshot [THEN conjunct2, THEN conjunct2, THEN conjunct1,
      rule_format, of example_state 0 "[\<lparr>m_gForceLateral = FloatV (Fin (3 / 2))\<rparr>]" 0]
  note other = only_telemetry_emits_snapshot [THEN conjunct2, THEN conjunct1,
      rule_format, of 3 example_state "PacketOther 0"]
  have "handle_packet example_state
          (0, PacketMotionData 0 [\<lparr>m_gForceLateral = FloatV (Fin (3 / 2))\<rparr>]) =
        Inr (example_state\<lparr>motion_data := (motion_data example_state)
               (0 \<mapsto> [\<lparr>m_gForceLateral = FloatV (Fin (3 / 2))\<rparr>] ! 0)\<rparr>, True)"
    using h by (intro motion) simp
  moreover have "handle_packet example_state (3, PacketOther 0) = Inr (example_state, True)"
    by (intro other) simp
  ultimately show ?thesis using h by (simp add: example_state_def)
qed

subsection \<open>C10: the fuel value is carried over to another car\<close>

text \<open>
  Claim C10. When a car telemetry packet names a car other than the tracked one and the
  setup store has no entry for the new car, the dictionary built for the new car has the
  fuel value of the previous dictionary, not the default 0. The dictionary is built before
  the box is drawn; only on a terminal too small for the box and of 48 cells or fewer the
  drawing of this snapshot raises \<^verbatim>\<open>curses.error\<close>, on every other terminal the packet
  is handled and the state has the new dictionary.
\<close>

theorem fuel_carries_over_to_new_entity:
  assumes "player_car_index s = Some i" "i \<noteq> idx" "fuel (data s) = Some f"
    "car_setup_data s idx = None" "idx < length cars"
    "well_formed (build_data s idx (cars ! idx))"
  shows "fuel (build_data s idx (cars ! idx)) = Some f \<and>
     (if (win_width (stdscr s) < 75 \<or> win_height (stdscr s) < 15) \<and>
         \<not> fits (stdscr s) 0 0 too_small_notice
      then handle_packet s (6, PacketCarTelemetryData idx cars) = Inl CursesError
      else (\<exists>s' ok. handle_packet s (6, PacketCarTelemetryData idx cars) = Inr (s', ok) \<and>
           player_car_index s' = Some idx \<and>
           data s' = build_data s idx (cars ! idx) \<and>
           fuel (data s') = Some f))"
proof -
  have carried: "fuel (build_data s idx (cars ! idx)) = Some f"
    using assms(3,4) by (simp add: build_data_fields dict_get_def)
  show ?thesis
  proof (cases "(win_width (stdscr s) < 75 \<or> win_height (stdscr s) < 15) \<and>
         \<not> fits (stdscr s) 0 0 too_small_notice")
    case True
    then have "handle_packet s (6, PacketCarTelemetryData idx cars) = Inl CursesError"
      using telemetry_step_tiny [OF assms(5)] by blast
    with carried True show ?thesis by simp
  next
    case False
    obtain s' ok where "handle_packet s (6, PacketCarTelemetryData idx cars) = Inr (s', ok)"
      "data s' = build_data s idx (cars ! idx)" "player_car_index s' = Some idx"
      using telemetry_step_total [OF assms(5,6) False] by blast
    with carried False show ?thesis by auto
  qed
qed

text \<open>
  The theorem with car 0 tracked at the fuel 42 and a packet that names car 1.
\<close>

theorem fuel_carries_over_to_new_entity_witness:
  "player_car_index example_state = Some 0 \<and> (0::nat) \<noteq> 1 \<and>
   fuel (data example_state) = Some (FloatV (Fin 42)) \<and>
   car_setup_data example_state 1 = None \<and> (1::nat) < length [example_car, example_car] \<and>
   well_formed (build_data example_state 1 ([example_car, example_car] ! 1)) \<and>
   75 \<le> win_width (stdscr example_state) \<and> 15 \<le> win_height (stdscr example_state) \<and>
   map_sum id (\<lambda>r. (player_car_index (fst r), fuel (data (fst r))))
     (handle_packet example_state (6, PacketCarTelemetryData 1 [example_car, example_car])) =
     Inr (Some 1, Some (FloatV (Fin 42)))"
proof -
  have h: "player_car_index example_state = Some 0" "(0::nat) \<noteq> 1"
    "fuel (data example_state) = Some (FloatV (Fin 42))"
    "car_setup_data example_state 1 = None" "(1::nat) < length [example_car, example_car]"
    "well_formed (build_data example_state 1 ([example_car, example_car] ! 1))"
    by (simp_all add: well_formed_eval example_defs)
  have big: "75 \<le> win_width (stdscr example_state)" "15 \<le> win_height (stdscr example_state)"
    by (simp_all add: example_defs newwin_def)
  then have "\<not> ((win_width (stdscr example_state) < 75 \<or> win_height (stdscr example_state) < 15) \<and>
      \<not> fits (stdscr example_state) 0 0 too_small_notice)"
    by simp
  with fuel_carries_over_to_new_entity [OF h] obtain s' ok where
    "handle_packet example_state (6, PacketCarTelemetryData 1 [example_car, example_car]) =
       Inr (s', ok)" "player_car_index s' = Some 1" "fuel (data s') = Some (FloatV (Fin 42))"
    by (simp only: if_False) blast
  then show ?thesis using h big by simp
qed

end
